theory Spec2Isabelle
  imports Main "HOL-Library.AList" "HOL-Library.Sublist" "HOL-Library.Multiset"
begin

section \<open>Data model of \<^verbatim>\<open>src/github-contribution-stats.ts\<close>\<close>

text \<open>
  A JavaScript \<^verbatim>\<open>Date\<close> is compared through its time value, the number of
  milliseconds since the epoch, so an instant is an \<open>int\<close>. The timestamps of the
  hosting API are ISO strings; parsing them is outside the model, and a field that is
  \<^verbatim>\<open>null\<close> or absent is \<open>None\<close>.
\<close>

type_synonym instant = int

text \<open>
  An identifier read from the API is a string (a node id) or a number (a database id).
  \<^verbatim>\<open>a || b\<close> and \<^verbatim>\<open>!a\<close> test truthiness: the empty string, zero and
  \<^verbatim>\<open>null\<close> are falsy.
\<close>

datatype js_id = IdStr string | IdNum int

fun truthy_id :: "js_id option \<Rightarrow> bool" where
  "truthy_id None = False"
| "truthy_id (Some (IdStr s)) = (s \<noteq> [])"
| "truthy_id (Some (IdNum n)) = (n \<noteq> 0)"

record repository =
  owner_login :: string
  repository_name :: string
  pushed_at :: "instant option"
  updated_at :: "instant option"

section \<open>Repository filter\<close>

text \<open>
  \<^verbatim>\<open>new Date(repo.pushed_at || 0)\<close>: a missing timestamp becomes the epoch.
\<close>

definition date_or_epoch :: "instant option \<Rightarrow> instant" where
  "date_or_epoch t = (case t of None \<Rightarrow> 0 | Some d \<Rightarrow> d)"

definition was_updated_in_period :: "instant \<Rightarrow> repository \<Rightarrow> bool" where
  "was_updated_in_period cutoff_date repo =
     (let last_pushed = date_or_epoch (pushed_at repo);
          last_updated = date_or_epoch (updated_at repo);
          latest_activity = (if last_pushed > last_updated then last_pushed else last_updated)
      in latest_activity \<ge> cutoff_date)"

definition filterUpdatedRepositories :: "repository list \<Rightarrow> instant \<Rightarrow> repository list" where
  "filterUpdatedRepositories repos cutoff_date = filter (was_updated_in_period cutoff_date) repos"

section \<open>Accumulators\<close>

text \<open>
  \<^verbatim>\<open>user_stats\<close> is an object used as a dictionary from the resolved author
  identity to an accumulator object; each accumulator holds two further dictionaries keyed
  by repository name. All three are created as \<^verbatim>\<open>{}\<close>, so besides their own
  properties they inherit those of \<^verbatim>\<open>Object.prototype\<close>.

  The own properties of a dictionary are an association list in insertion order:
  \<open>map_of\<close> reads an own key, \<open>AList.update\<close> overwrites the value of a present
  key in place and appends an absent key at the end, as an assignment
  \<^verbatim>\<open>obj[k] = v\<close> does. A read \<^verbatim>\<open>obj[k]\<close> of a key that is not an own key
  yields the inherited property when \<open>k\<close> is one of the names below, and
  \<^verbatim>\<open>undefined\<close> otherwise. The inherited properties are functions, but for
  \<^verbatim>\<open>__proto__\<close>, an accessor whose getter yields \<^verbatim>\<open>Object.prototype\<close>
  itself and whose setter ignores a value that is not an object; every one of them is
  truthy.
\<close>

definition object_prototype_keys :: "string list" where
  "object_prototype_keys =
     [''constructor'', ''__defineGetter__'', ''__defineSetter__'', ''hasOwnProperty'',
      ''__lookupGetter__'', ''__lookupSetter__'', ''isPrototypeOf'', ''propertyIsEnumerable'',
      ''toString'', ''valueOf'', ''__proto__'', ''toLocaleString'']"

definition inherited :: "string \<Rightarrow> bool" where
  "inherited k = (k \<in> set object_prototype_keys)"

text \<open>
  A count stored in \<^verbatim>\<open>commits_by_repo\<close> is a number, or \<^verbatim>\<open>NaN\<close>: the
  increment of an inherited function stores \<^verbatim>\<open>NaN\<close>.

  The accumulator is an object literal with no declared type in the source; the fields
  that share a name with the declared interface \<^verbatim>\<open>UserStat\<close> carry the prefix
  \<open>acc_\<close> here.
\<close>

datatype js_count = Num nat | NaN

record pr_counts =
  opened :: nat
  closed :: nat

record author_stats =
  acc_user_id :: "js_id option"
  commits_by_repo :: "(string \<times> js_count) list"
  pull_requests_by_repo :: "(string \<times> pr_counts) list"
  acc_total_commits :: nat
  acc_total_prs_opened :: nat
  acc_total_prs_closed :: nat

type_synonym user_stats = "(string \<times> author_stats) list"

definition new_author :: "js_id option \<Rightarrow> author_stats" where
  "new_author user_id =
     \<lparr>acc_user_id = user_id, commits_by_repo = [], pull_requests_by_repo = [],
      acc_total_commits = 0, acc_total_prs_opened = 0, acc_total_prs_closed = 0\<rparr>"

text \<open>\<^verbatim>\<open>a || b || null\<close> on two identifiers.\<close>

definition id_or :: "js_id option \<Rightarrow> js_id option \<Rightarrow> js_id option" where
  "id_or a b = (if truthy_id a then a else if truthy_id b then b else None)"

text \<open>\<^verbatim>\<open>a || d\<close> on a string that may be missing, with a string default.\<close>

definition str_or :: "string option \<Rightarrow> string \<Rightarrow> string" where
  "str_or a d = (case a of None \<Rightarrow> d | Some s \<Rightarrow> if s = [] then d else s)"

text \<open>
  The block both collectors open with:
  \<^verbatim>\<open>
  if (!user_stats[author_login]) {
      user_stats[author_login] = { user_id: user_id, commits_by_repo: {}, ... }
  } else if (user_id && !user_stats[author_login].user_id) {
      user_stats[author_login].user_id = user_id
  }
  \<close>
  It yields the accumulator the rest of the step works on. When the author identity is
  not an own key and names an inherited property, \<^verbatim>\<open>user_stats[author_login]\<close> is
  that truthy inherited object: no accumulator is created, and the result is \<open>None\<close>.
  (The second branch may then store \<^verbatim>\<open>user_id\<close> on the inherited object. For a
  function that write is never read back by the collection. For \<^verbatim>\<open>__proto__\<close> it
  would reach \<^verbatim>\<open>Object.prototype\<close>; an identity \<^verbatim>\<open>__proto__\<close> with an
  identifier needs an account of that name, which the hosting service does not allow,
  and is outside the model.)
\<close>

definition author_entry :: "user_stats \<Rightarrow> string \<Rightarrow> js_id option \<Rightarrow> author_stats option" where
  "author_entry user_stats author_login user_id =
     (case map_of user_stats author_login of
        Some acc \<Rightarrow>
          Some (if truthy_id user_id \<and> \<not> truthy_id (acc_user_id acc)
                then acc\<lparr>acc_user_id := user_id\<rparr> else acc)
      | None \<Rightarrow> if inherited author_login then None else Some (new_author user_id))"

section \<open>Commit collector\<close>

record gh_user =
  login :: string
  uid :: "js_id option"
  databaseId :: "js_id option"
  node_id :: "js_id option"

record commit_author =
  user :: "gh_user option"
  author_name :: "string option"
  email :: "string option"

text \<open>
  A commit of a branch history: its id and its author object. The query may return
  \<^verbatim>\<open>null\<close> for the author, and the account of an author may be absent
  (\<^verbatim>\<open>user?.\<close>).
\<close>

record commit =
  oid :: string
  author :: "commit_author option"

text \<open>
  \<^verbatim>\<open>commit.author.user?.login || commit.author.name || commit.author.email || "Unknown"\<close>
\<close>

definition commit_author_login :: "commit_author \<Rightarrow> string" where
  "commit_author_login a =
     str_or (map_option login (user a))
       (str_or (author_name a) (str_or (email a) ''Unknown''))"

text \<open>\<^verbatim>\<open>commit.author.user?.id || commit.author.user?.databaseId || null\<close>\<close>

definition commit_user_id :: "commit_author \<Rightarrow> js_id option" where
  "commit_user_id a =
     (case user a of None \<Rightarrow> None | Some u \<Rightarrow> id_or (uid u) (databaseId u))"

text \<open>
  \<^verbatim>\<open>
  if (!user_stats[author_login].commits_by_repo[repo_name]) {
      user_stats[author_login].commits_by_repo[repo_name] = 0
  }
  user_stats[author_login].commits_by_repo[repo_name]++
  user_stats[author_login].total_commits++
  \<close>
  The test reads the own count, or else the inherited property. A stored zero or
  \<^verbatim>\<open>NaN\<close> is falsy and is set to zero; an inherited property is truthy and the
  count is not initialised. The increment of a number stores the next number. The
  increment of an inherited function converts it to \<^verbatim>\<open>NaN\<close> and stores
  \<^verbatim>\<open>NaN\<close> as an own property; for \<^verbatim>\<open>__proto__\<close> the store goes to the
  setter, which ignores it. The total is incremented in every case.
\<close>

definition count_commit :: "string \<Rightarrow> author_stats \<Rightarrow> author_stats" where
  "count_commit repo_name acc =
     (let counts = commits_by_repo acc;
          initialised =
            (case map_of counts repo_name of
               Some (Num n) \<Rightarrow> if n = 0 then AList.update repo_name (Num 0) counts else counts
             | Some NaN \<Rightarrow> AList.update repo_name (Num 0) counts
             | None \<Rightarrow>
                 if inherited repo_name then counts else AList.update repo_name (Num 0) counts);
          incremented =
            (case map_of initialised repo_name of
               Some (Num n) \<Rightarrow> AList.update repo_name (Num (n + 1)) initialised
             | Some NaN \<Rightarrow> initialised
             | None \<Rightarrow>
                 if repo_name = ''__proto__'' then initialised
                 else AList.update repo_name NaN initialised)
      in acc\<lparr>commits_by_repo := incremented,
             acc_total_commits := acc_total_commits acc + 1\<rparr>)"

text \<open>
  A request to the hosting API either returns or throws an error object with an optional
  HTTP status and a message. Besides such an error, the collection can throw a
  \<^verbatim>\<open>TypeError\<close> when it reads a property of \<^verbatim>\<open>null\<close> or
  \<^verbatim>\<open>undefined\<close>.
\<close>

record api_error =
  status :: "int option"
  message :: string

datatype thrown = ApiError api_error | TypeError

text \<open>
  The body of the loop over one branch's commits; \<open>processed_commits\<close> is the set of
  commit ids seen so far in this repository. The id is added to the set first. Then
  \<^verbatim>\<open>commit.author.user\<close> throws when the author is \<^verbatim>\<open>null\<close>, and
  \<^verbatim>\<open>user_stats[author_login].commits_by_repo[repo_name]\<close> throws when the author
  identity names an inherited property, which has no \<^verbatim>\<open>commits_by_repo\<close>. The
  loop has no handler: the error leaves it, with the accumulators as they are.
\<close>

definition process_commit ::
  "string \<Rightarrow> commit \<Rightarrow> string set \<times> user_stats \<Rightarrow> thrown option \<times> string set \<times> user_stats" where
  "process_commit repo_name c st =
     (case st of (processed_commits, user_stats) \<Rightarrow>
        if oid c \<notin> processed_commits then
          (case author c of
             None \<Rightarrow> (Some TypeError, insert (oid c) processed_commits, user_stats)
           | Some a \<Rightarrow>
               (let author_login = commit_author_login a;
                    user_id = commit_user_id a
                in case author_entry user_stats author_login user_id of
                     None \<Rightarrow> (Some TypeError, insert (oid c) processed_commits, user_stats)
                   | Some acc \<Rightarrow>
                       (None, insert (oid c) processed_commits,
                        AList.update author_login (count_commit repo_name acc) user_stats)))
        else (None, processed_commits, user_stats))"

fun commits_loop ::
  "string \<Rightarrow> commit list \<Rightarrow> string set \<times> user_stats \<Rightarrow> thrown option \<times> string set \<times> user_stats" where
  "commits_loop repo_name [] st = (None, st)"
| "commits_loop repo_name (c # cs) st =
     (case process_commit repo_name c st of
        (Some e, st') \<Rightarrow> (Some e, st')
      | (None, st') \<Rightarrow> commits_loop repo_name cs st')"

text \<open>
  \<open>processBranchCommits\<close>: the history query of the branch throws or returns the
  commits of the branch in the period (an absent ref reads as no commits); the commits are
  then processed in order. The accumulators are mutated in place, so what was counted
  before an error stays counted: a result is the state together with the error thrown, if
  any.
\<close>

record branch =
  branch_name :: string
  history :: "api_error + commit list"

definition processBranchCommits ::
  "string \<Rightarrow> branch \<Rightarrow> string set \<times> user_stats \<Rightarrow> thrown option \<times> string set \<times> user_stats" where
  "processBranchCommits repo_name b st =
     (case history b of
        Inl e \<Rightarrow> (Some (ApiError e), st)
      | Inr branch_commits \<Rightarrow> commits_loop repo_name branch_commits st)"

fun branches_loop ::
  "string \<Rightarrow> branch list \<Rightarrow> string set \<times> user_stats \<Rightarrow> thrown option \<times> string set \<times> user_stats" where
  "branches_loop repo_name [] st = (None, st)"
| "branches_loop repo_name (b # bs) st =
     (case processBranchCommits repo_name b st of
        (Some e, st') \<Rightarrow> (Some e, st')
      | (None, st') \<Rightarrow> branches_loop repo_name bs st')"

text \<open>\<open>processRepositoryBranches\<close>: the branch query throws or returns the branches.\<close>

definition processRepositoryBranches ::
  "string \<Rightarrow> api_error + branch list \<Rightarrow> string set \<times> user_stats
     \<Rightarrow> thrown option \<times> string set \<times> user_stats" where
  "processRepositoryBranches repo_name branches_response st =
     (case branches_response of
        Inl e \<Rightarrow> (Some (ApiError e), st)
      | Inr branches \<Rightarrow> branches_loop repo_name branches st)"

section \<open>Pull request collector\<close>

record pull_request =
  number :: int
  pr_user :: "gh_user option"
  created_at :: instant
  closed_at :: "instant option"
  pr_updated_at :: instant

text \<open>
  \<^verbatim>\<open>
  if (!user_stats[author_login].pull_requests_by_repo[repo_name]) {
      user_stats[author_login].pull_requests_by_repo[repo_name] = { opened: 0, closed: 0 }
  }
  \<close>
  An own entry is an object and truthy; so is an inherited property, and then no entry
  is created.
\<close>

definition pr_entry :: "string \<Rightarrow> author_stats \<Rightarrow> author_stats" where
  "pr_entry repo_name acc =
     (case map_of (pull_requests_by_repo acc) repo_name of
        Some _ \<Rightarrow> acc
      | None \<Rightarrow>
          if inherited repo_name then acc
          else acc\<lparr>pull_requests_by_repo :=
                 AList.update repo_name \<lparr>opened = 0, closed = 0\<rparr> (pull_requests_by_repo acc)\<rparr>)"

text \<open>
  \<^verbatim>\<open>
  user_stats[author_login].pull_requests_by_repo[repo_name].opened++
  user_stats[author_login].total_prs_opened++
  \<close>
  After \<open>pr_entry\<close> the repository name is an own key or names an inherited property.
  On an own entry the counter is incremented. On an inherited object the increment
  stores \<^verbatim>\<open>NaN\<close> in a property \<^verbatim>\<open>opened\<close> of that object, which belongs to
  no accumulator and is falsy wherever it is read, and the dictionary gets no entry. The
  total is incremented in both cases.
\<close>

definition count_opened :: "string \<Rightarrow> author_stats \<Rightarrow> author_stats" where
  "count_opened repo_name acc =
     acc\<lparr>pull_requests_by_repo :=
           (case map_of (pull_requests_by_repo acc) repo_name of
              Some c \<Rightarrow> AList.update repo_name (c\<lparr>opened := opened c + 1\<rparr>) (pull_requests_by_repo acc)
            | None \<Rightarrow> pull_requests_by_repo acc),
         acc_total_prs_opened := acc_total_prs_opened acc + 1\<rparr>"

definition count_closed :: "string \<Rightarrow> author_stats \<Rightarrow> author_stats" where
  "count_closed repo_name acc =
     acc\<lparr>pull_requests_by_repo :=
           (case map_of (pull_requests_by_repo acc) repo_name of
              Some c \<Rightarrow> AList.update repo_name (c\<lparr>closed := closed c + 1\<rparr>) (pull_requests_by_repo acc)
            | None \<Rightarrow> pull_requests_by_repo acc),
         acc_total_prs_closed := acc_total_prs_closed acc + 1\<rparr>"

text \<open>\<^verbatim>\<open>pr.user ? pr.user.login : "Unknown"\<close> and \<^verbatim>\<open>pr.user?.id || pr.user?.node_id || null\<close>\<close>

definition pr_author_login :: "'a pull_request_scheme \<Rightarrow> string" where
  "pr_author_login pr = (case pr_user pr of None \<Rightarrow> ''Unknown'' | Some u \<Rightarrow> login u)"

definition pr_user_id :: "'a pull_request_scheme \<Rightarrow> js_id option" where
  "pr_user_id pr = (case pr_user pr of None \<Rightarrow> None | Some u \<Rightarrow> id_or (uid u) (node_id u))"

text \<open>
  \<open>processPullRequest\<close>, used by the search path. It throws a \<^verbatim>\<open>TypeError\<close>
  at \<^verbatim>\<open>user_stats[author_login].pull_requests_by_repo[repo_name]\<close> when the author
  identity names an inherited property; nothing has been counted then.
\<close>

definition processPullRequest ::
  "'a pull_request_scheme \<Rightarrow> string \<Rightarrow> instant \<Rightarrow> user_stats \<Rightarrow> thrown + user_stats" where
  "processPullRequest pr repo_name cutoff_date user_stats =
     (let author_login = pr_author_login pr;
          user_id = pr_user_id pr
      in case author_entry user_stats author_login user_id of
           None \<Rightarrow> Inl TypeError
         | Some acc \<Rightarrow>
             (let acc0 = pr_entry repo_name acc;
                  acc1 = (if created_at pr \<ge> cutoff_date then count_opened repo_name acc0 else acc0);
                  acc2 = (case closed_at pr of
                            None \<Rightarrow> acc1
                          | Some t \<Rightarrow>
                              if t \<ge> cutoff_date then count_closed repo_name acc1 else acc1)
              in Inr (AList.update author_login acc2 user_stats)))"

text \<open>
  The body of the loop over the matching items of one page in
  \<open>fetchPRsWithPagination\<close>: the source repeats the statements of
  \<open>processPullRequest\<close> inline, with \<^verbatim>\<open>repo.name\<close> for the repository name,
  inside a handler that logs an error and goes on to the next item.
\<close>

definition process_page_item ::
  "pull_request \<Rightarrow> string \<Rightarrow> instant \<Rightarrow> user_stats \<Rightarrow> user_stats" where
  "process_page_item pr repo_name cutoff_date user_stats =
     (let author_login = (case pr_user pr of None \<Rightarrow> ''Unknown'' | Some u \<Rightarrow> login u);
          user_id = (case pr_user pr of None \<Rightarrow> None | Some u \<Rightarrow> id_or (uid u) (node_id u))
      in case author_entry user_stats author_login user_id of
           None \<Rightarrow> user_stats
         | Some acc \<Rightarrow>
             (let acc0 = pr_entry repo_name acc;
                  acc1 = (if created_at pr \<ge> cutoff_date then count_opened repo_name acc0 else acc0);
                  acc2 = (case closed_at pr of
                            None \<Rightarrow> acc1
                          | Some t \<Rightarrow>
                              if t \<ge> cutoff_date then count_closed repo_name acc1 else acc1)
              in AList.update author_login acc2 user_stats))"

subsection \<open>Primary path: search\<close>

text \<open>
  An item of the search response is a pull request with the URL of its
  \<^verbatim>\<open>pull_request\<close> member; \<open>None\<close> stands for an item without that member, on
  which \<^verbatim>\<open>pr.pull_request.url\<close> throws.
\<close>

record search_item = pull_request +
  pull_request_url :: "string option"

record search_result =
  total_count :: int
  items :: "search_item list"

text \<open>
  \<^verbatim>\<open>url.match(/\/repos\/([^\/]+)\/([^\/]+)\/pulls\/\d+/)\<close>. A group \<^verbatim>\<open>[^\/]+\<close>
  must be followed by a slash, so it is the whole non-empty run of characters up to the
  next slash. \<open>match_here\<close> matches at the start of the string and yields the two
  groups; the search tries every start from the left.
\<close>

definition is_digit :: "char \<Rightarrow> bool" where
  "is_digit c = (48 \<le> (of_char c :: nat) \<and> (of_char c :: nat) \<le> 57)"

definition not_slash :: "char \<Rightarrow> bool" where
  "not_slash c = (c \<noteq> CHR ''/'')"

definition match_here :: "string \<Rightarrow> (string \<times> string) option" where
  "match_here s =
     (if take 7 s \<noteq> ''/repos/'' then None
      else let s1 = drop 7 s; g1 = takeWhile not_slash s1; s2 = dropWhile not_slash s1 in
        if g1 = [] \<or> s2 = [] then None
        else let s3 = tl s2; g2 = takeWhile not_slash s3; s4 = dropWhile not_slash s3 in
          if g2 = [] \<or> take 7 s4 \<noteq> ''/pulls/'' then None
          else (case drop 7 s4 of
                  [] \<Rightarrow> None
                | d # _ \<Rightarrow> if is_digit d then Some (g1, g2) else None))"

fun pr_repo_match :: "string \<Rightarrow> (string \<times> string) option" where
  "pr_repo_match [] = None"
| "pr_repo_match (c # cs) =
     (case match_here (c # cs) of Some m \<Rightarrow> Some m | None \<Rightarrow> pr_repo_match cs)"

text \<open>
  The body of the loop of \<open>processPullRequestsFromSearch\<close>; an item on which the
  statement throws is caught and skipped, as an item of another repository is.
\<close>

definition process_search_item ::
  "string \<Rightarrow> string \<Rightarrow> instant \<Rightarrow> search_item \<Rightarrow> user_stats \<Rightarrow> user_stats" where
  "process_search_item owner repo_name cutoff_date pr user_stats =
     (case pull_request_url pr of
        None \<Rightarrow> user_stats
      | Some url \<Rightarrow>
          (case pr_repo_match url of
             None \<Rightarrow> user_stats
           | Some (g1, g2) \<Rightarrow>
               if g1 = owner \<and> g2 = repo_name
               then (case processPullRequest pr repo_name cutoff_date user_stats of
                       Inl pr_error \<Rightarrow> user_stats
                     | Inr user_stats' \<Rightarrow> user_stats')
               else user_stats))"

definition processPullRequestsFromSearch ::
  "search_item list \<Rightarrow> repository \<Rightarrow> instant \<Rightarrow> user_stats \<Rightarrow> user_stats" where
  "processPullRequestsFromSearch search_prs repo cutoff_date user_stats =
     fold (process_search_item (owner_login repo) (repository_name repo) cutoff_date)
       search_prs user_stats"

subsection \<open>Fallback path: pagination\<close>

text \<open>
  \<^verbatim>\<open>error.status === 403 && error.message.includes('rate limit')\<close>
\<close>

definition is_rate_limit :: "api_error \<Rightarrow> bool" where
  "is_rate_limit e = (status e = Some 403 \<and> sublist ''rate limit'' (message e))"

text \<open>
  The list endpoint is a function \<open>pulls\<close>: the reply to the \<open>n\<close>-th request of the
  run (counted from zero) when it asks for page \<open>p\<close>. The variables of the loop are the
  fields of \<open>fetch_state\<close>; \<open>requested\<close> is not a variable of the source: it records
  the page number of every request, in order (the source logs it before each request).
\<close>

type_synonym pulls_endpoint = "nat \<Rightarrow> int \<Rightarrow> api_error + pull_request list"

record fetch_state =
  page :: int
  has_more_pages :: bool
  total_prs :: nat
  stats :: user_stats
  requested :: "int list"

text \<open>
  One pass through the body of \<^verbatim>\<open>while (has_more_pages)\<close>. The request is the first
  statement that can throw; when it throws, the statements after it, among them
  \<^verbatim>\<open>page++\<close>, have not run. The waits are not modelled.
\<close>

definition fetch_page :: "pulls_endpoint \<Rightarrow> string \<Rightarrow> instant \<Rightarrow> fetch_state \<Rightarrow> fetch_state" where
  "fetch_page pulls repo_name cutoff_date s =
     (case pulls (length (requested s)) (page s) of
        Inr pull_requests \<Rightarrow>
          (let more = (length pull_requests = 100);
               page' = page s + 1;
               filtered_prs = filter (\<lambda>pr. pr_updated_at pr \<ge> cutoff_date) pull_requests;
               stats' = fold (\<lambda>pr us. process_page_item pr repo_name cutoff_date us)
                          filtered_prs (stats s)
           in \<lparr>page = page',
               has_more_pages = (if filtered_prs = [] \<and> page' > 2 then False else more),
               total_prs = total_prs s + length filtered_prs,
               stats = stats',
               requested = requested s @ [page s]\<rparr>)
      | Inl error \<Rightarrow>
          if is_rate_limit error
          then s\<lparr>page := page s - 1, requested := requested s @ [page s]\<rparr>
          else s\<lparr>has_more_pages := False, requested := requested s @ [page s]\<rparr>)"

text \<open>
  The loop may run forever (an endpoint that keeps answering with a rate-limit error, or
  with full pages of recent items): not returning is \<open>None\<close>.
\<close>

partial_function (option) pagination_loop ::
  "pulls_endpoint \<Rightarrow> string \<Rightarrow> instant \<Rightarrow> fetch_state \<Rightarrow> fetch_state option" where
  "pagination_loop pulls repo_name cutoff_date s =
     (if has_more_pages s
      then pagination_loop pulls repo_name cutoff_date (fetch_page pulls repo_name cutoff_date s)
      else Some s)"

declare pagination_loop.simps [code]

definition fetchPRsWithPagination ::
  "pulls_endpoint \<Rightarrow> repository \<Rightarrow> instant \<Rightarrow> user_stats \<Rightarrow> fetch_state option" where
  "fetchPRsWithPagination pulls repo cutoff_date user_stats =
     pagination_loop pulls (repository_name repo) cutoff_date
       \<lparr>page = 1, has_more_pages = True, total_prs = 0, stats = user_stats, requested = []\<rparr>"

subsection \<open>Choice of the path\<close>

text \<open>
  \<open>processRepositoryPullRequests\<close>: the search request throws or returns. The result
  is the accumulators and the pages the fallback requested (none when it did not run).
\<close>

definition processRepositoryPullRequests ::
  "api_error + search_result \<Rightarrow> pulls_endpoint \<Rightarrow> repository \<Rightarrow> instant \<Rightarrow> user_stats
     \<Rightarrow> (user_stats \<times> int list) option" where
  "processRepositoryPullRequests search_response pulls repo cutoff_date user_stats =
     (case search_response of
        Inr r \<Rightarrow>
          (let user_stats' = processPullRequestsFromSearch (items r) repo cutoff_date user_stats
           in if total_count r = 0
              then map_option (\<lambda>s. (stats s, requested s))
                     (fetchPRsWithPagination pulls repo cutoff_date user_stats')
              else Some (user_stats', []))
      | Inl search_error \<Rightarrow>
          map_option (\<lambda>s. (stats s, requested s))
            (fetchPRsWithPagination pulls repo cutoff_date user_stats))"

section \<open>One collection pass\<close>

text \<open>
  What the hosting API answers for one repository: the branch query, the search and the
  list endpoint. \<open>collectUserStats\<close> gives every repository a fresh set of seen commit
  ids; an error thrown while its branches are read is caught there, and the pull requests
  of that repository are then not read.
\<close>

record repo_feed =
  branches_response :: "api_error + branch list"
  search_response :: "api_error + search_result"
  pulls_response :: pulls_endpoint

type_synonym octokit = "repository \<Rightarrow> repo_feed"

fun collect_loop :: "octokit \<Rightarrow> repository list \<Rightarrow> instant \<Rightarrow> user_stats \<Rightarrow> user_stats option" where
  "collect_loop api [] cutoff_date user_stats = Some user_stats"
| "collect_loop api (repo # repos) cutoff_date user_stats =
     (case processRepositoryBranches (repository_name repo) (branches_response (api repo))
             ({}, user_stats) of
        (Some repo_error, _, user_stats') \<Rightarrow> collect_loop api repos cutoff_date user_stats'
      | (None, _, user_stats') \<Rightarrow>
          (case processRepositoryPullRequests (search_response (api repo))
                  (pulls_response (api repo)) repo cutoff_date user_stats' of
             None \<Rightarrow> None
           | Some (user_stats'', _) \<Rightarrow> collect_loop api repos cutoff_date user_stats''))"

definition collectUserStats :: "octokit \<Rightarrow> repository list \<Rightarrow> instant \<Rightarrow> user_stats option" where
  "collectUserStats api updated_repos cutoff_date = collect_loop api updated_repos cutoff_date []"

section \<open>Stats aggregator\<close>

record RepoContribution =
  repo_name :: string
  commits :: nat
  prs_opened :: nat
  prs_closed :: nat

record UserStat =
  name :: string
  user_id :: "js_id option"
  total_commits :: nat
  total_prs_opened :: nat
  total_prs_closed :: nat
  repo_contributions :: "RepoContribution list"

record InstallationStats =
  inst_id :: int
  account :: string
  account_type :: string
  period_days :: int
  user_stats :: "UserStat list"

record InstallationError =
  err_id :: int
  err_account :: string
  error :: string

datatype installation_result = Stats InstallationStats | Failed InstallationError

text \<open>
  \<^verbatim>\<open>Object.keys\<close> and \<^verbatim>\<open>Object.entries\<close> list the keys that are array indices
  (canonical decimal numerals below \<open>2^32 - 1\<close>) first, in ascending numeric order, and
  then the other keys in insertion order.
\<close>

definition digits_value :: "string \<Rightarrow> int" where
  "digits_value k = fold (\<lambda>c n. 10 * n + ((of_char c :: int) - 48)) k 0"

definition array_index :: "string \<Rightarrow> int option" where
  "array_index k =
     (if k \<noteq> [] \<and> list_all is_digit k \<and> (k = ''0'' \<or> hd k \<noteq> CHR ''0'')
         \<and> digits_value k < 4294967295
      then Some (digits_value k) else None)"

definition own_entries :: "(string \<times> 'v) list \<Rightarrow> (string \<times> 'v) list" where
  "own_entries kvs =
     sort_key (\<lambda>kv. case array_index (fst kv) of Some n \<Rightarrow> n | None \<Rightarrow> 0)
       (filter (\<lambda>kv. array_index (fst kv) \<noteq> None) kvs)
     @ filter (\<lambda>kv. array_index (fst kv) = None) kvs"

text \<open>
  \<^verbatim>\<open>new Set([...Object.keys(commits_by_repo), ...Object.keys(pull_requests_by_repo)])\<close>
  iterates in the order of first insertion.
\<close>

definition repo_set :: "author_stats \<Rightarrow> string list" where
  "repo_set acc =
     rev (remdups (rev (map fst (own_entries (commits_by_repo acc))
                        @ map fst (own_entries (pull_requests_by_repo acc)))))"

text \<open>
  \<^verbatim>\<open>commits_by_repo[repo_name] || 0\<close> and
  \<^verbatim>\<open>(pull_requests_by_repo[repo_name] && pull_requests_by_repo[repo_name].opened) || 0\<close>.
  A stored \<^verbatim>\<open>NaN\<close> is falsy and reads as zero. Every name of the set is an own
  key of one of the two dictionaries, and an own key of \<^verbatim>\<open>pull_requests_by_repo\<close>
  never names an inherited property (\<open>pr_entry\<close> creates none; see
  \<open>collected_keys\<close> below), so a name that is not an own key of
  \<^verbatim>\<open>commits_by_repo\<close> reads \<^verbatim>\<open>undefined\<close> there. For a name that is
  not an own key of \<^verbatim>\<open>pull_requests_by_repo\<close> the second expression is zero
  also when the name is inherited: the property \<^verbatim>\<open>opened\<close> of the inherited
  object is \<^verbatim>\<open>undefined\<close> or \<^verbatim>\<open>NaN\<close>.
\<close>

definition repo_stat :: "author_stats \<Rightarrow> string \<Rightarrow> RepoContribution" where
  "repo_stat acc rn =
     \<lparr>repo_name = rn,
      commits = (case map_of (commits_by_repo acc) rn of
                   None \<Rightarrow> 0 | Some NaN \<Rightarrow> 0 | Some (Num n) \<Rightarrow> n),
      prs_opened = (case map_of (pull_requests_by_repo acc) rn of None \<Rightarrow> 0 | Some c \<Rightarrow> opened c),
      prs_closed = (case map_of (pull_requests_by_repo acc) rn of None \<Rightarrow> 0 | Some c \<Rightarrow> closed c)\<rparr>"

definition user_stat :: "string \<times> author_stats \<Rightarrow> UserStat" where
  "user_stat entry =
     (case entry of (user_name, acc) \<Rightarrow>
        \<lparr>name = user_name,
         user_id = acc_user_id acc,
         total_commits = acc_total_commits acc,
         total_prs_opened = acc_total_prs_opened acc,
         total_prs_closed = acc_total_prs_closed acc,
         repo_contributions = map (repo_stat acc) (repo_set acc)\<rparr>)"

record installation =
  installation_id :: int
  account_login :: string
  account_kind :: string

definition formatInstallationStats :: "installation \<Rightarrow> int \<Rightarrow> user_stats \<Rightarrow> InstallationStats" where
  "formatInstallationStats inst days_to_look_back stats_by_user =
     \<lparr>inst_id = installation_id inst,
      account = account_login inst,
      account_type = account_kind inst,
      period_days = days_to_look_back,
      user_stats = map user_stat (own_entries stats_by_user)\<rparr>"

section \<open>Report renderer\<close>

text \<open>Template literals print a number in decimal.\<close>

function show_nat :: "nat \<Rightarrow> string" where
  "show_nat n =
     (if n < 10 then [char_of (48 + n)]
      else show_nat (n div 10) @ [char_of (48 + n mod 10)])"
  by pat_completeness auto
termination
  by (relation "measure (\<lambda>n. n)") auto

definition show_int :: "int \<Rightarrow> string" where
  "show_int i = (if i < 0 then CHR ''-'' # show_nat (nat (- i)) else show_nat (nat i))"

definition show_id :: "js_id \<Rightarrow> string" where
  "show_id i = (case i of IdStr s \<Rightarrow> s | IdNum n \<Rightarrow> show_int n)"

text \<open>
  \<^verbatim>\<open>Array.prototype.sort\<close> with a comparison function is a stable sort: an element
  goes before the first element that the comparison does not put before it.
\<close>

fun insert_sorted :: "('a \<Rightarrow> 'a \<Rightarrow> int) \<Rightarrow> 'a \<Rightarrow> 'a list \<Rightarrow> 'a list" where
  "insert_sorted cmp x [] = [x]"
| "insert_sorted cmp x (y # ys) =
     (if cmp x y \<le> 0 then x # y # ys else y # insert_sorted cmp x ys)"

definition js_sort :: "('a \<Rightarrow> 'a \<Rightarrow> int) \<Rightarrow> 'a list \<Rightarrow> 'a list" where
  "js_sort cmp xs = foldr (insert_sorted cmp) xs []"

definition user_total :: "UserStat \<Rightarrow> nat" where
  "user_total a = total_commits a + total_prs_opened a + total_prs_closed a"

definition repo_total :: "RepoContribution \<Rightarrow> nat" where
  "repo_total a = commits a + prs_opened a + prs_closed a"

definition compare_users :: "UserStat \<Rightarrow> UserStat \<Rightarrow> int" where
  "compare_users a b = int (user_total b) - int (user_total a)"

definition compare_repos :: "RepoContribution \<Rightarrow> RepoContribution \<Rightarrow> int" where
  "compare_repos a b = int (repo_total b) - int (repo_total a)"

text \<open>
  The three pictograms of the report, as the bytes the string literals of the source file
  hold, and the line feed.
\<close>

definition warning_sign :: string where
  "warning_sign = [CHR 0xC3, CHR 0xA2, CHR 0xC5, CHR 0xA1, CHR 0xC2, CHR 0xA0,
                   CHR 0xC3, CHR 0xAF, CHR 0xC2, CHR 0xB8]"

definition chart_sign :: string where
  "chart_sign = [CHR 0xC3, CHR 0xB0, CHR 0xC5, CHR 0xB8, CHR 0xE2, CHR 0x80, CHR 0x9C,
                 CHR 0xC5, CHR 0xA0]"

definition person_sign :: string where
  "person_sign = [CHR 0xC3, CHR 0xB0, CHR 0xC5, CHR 0xB8, CHR 0xE2, CHR 0x80, CHR 0x98,
                  CHR 0xC2, CHR 0xA4]"

definition line_feed :: char where
  "line_feed = CHR 0x0A"

definition period_label :: "int \<Rightarrow> string" where
  "period_label days =
     (if days = 7 then ''week'' else if days = 30 then ''month'' else show_int days @ '' days'')"

definition header_line :: "InstallationStats \<Rightarrow> string" where
  "header_line inst =
     chart_sign @ '' Statistics for '' @ account inst @ '' ('' @ account_type inst
       @ '') - Last '' @ period_label (period_days inst) @ '':''"

definition error_line :: "InstallationError \<Rightarrow> string" where
  "error_line e = warning_sign @ '' Installation '' @ err_account e @ '': '' @ error e"

definition user_line :: "UserStat \<Rightarrow> string" where
  "user_line u =
     line_feed # person_sign @ '' '' @ name u
       @ (case user_id u of
            None \<Rightarrow> []
          | Some i \<Rightarrow> if truthy_id (Some i) then '' (ID: '' @ show_id i @ '')'' else [])
       @ '':''"

definition total_line :: "UserStat \<Rightarrow> string" where
  "total_line u =
     ''  Total: '' @ show_nat (total_commits u) @ '' commits, ''
       @ show_nat (total_prs_opened u) @ '' PRs opened, ''
       @ show_nat (total_prs_closed u) @ '' PRs closed''"

definition repo_line :: "RepoContribution \<Rightarrow> string" where
  "repo_line r =
     ''    - '' @ repo_name r @ '': '' @ show_nat (commits r) @ '' commits, ''
       @ show_nat (prs_opened r) @ '' PRs opened, ''
       @ show_nat (prs_closed r) @ '' PRs closed''"

text \<open>
  The renderer sorts \<^verbatim>\<open>installation.user_stats\<close> and every
  \<^verbatim>\<open>user.repo_contributions\<close> in place, so each step returns the lines pushed so far
  together with the records as the call leaves them. Records are values here; an array
  that two results shared would be sorted twice, and the second sort of a sorted array
  changes nothing.

  The body of the loop over the users of one installation:
\<close>

definition render_user :: "UserStat \<Rightarrow> string list \<times> UserStat list \<Rightarrow> string list \<times> UserStat list" where
  "render_user u st =
     (case st of (report_lines, users) \<Rightarrow>
        (let sorted_repos = js_sort compare_repos (repo_contributions u)
         in (report_lines @ [user_line u, total_line u, ''  Contributions by repository:'']
               @ map repo_line sorted_repos,
             users @ [u\<lparr>repo_contributions := sorted_repos\<rparr>])))"

text \<open>The body of the loop over the results:\<close>

definition render_installation ::
  "installation_result \<Rightarrow> string list \<times> installation_result list
     \<Rightarrow> string list \<times> installation_result list" where
  "render_installation res st =
     (case st of (report_lines, results) \<Rightarrow>
        (case res of
           Failed e \<Rightarrow> (report_lines @ [error_line e], results @ [Failed e])
         | Stats inst \<Rightarrow>
             (let lines1 = report_lines @ [header_line inst] in
              if user_stats inst \<noteq> [] then
                (let sorted_users = js_sort compare_users (user_stats inst);
                     (lines2, users') = fold render_user sorted_users (lines1, [])
                 in (lines2 @ [[]], results @ [Stats (inst\<lparr>user_stats := users'\<rparr>)]))
              else (lines1 @ [''  No contributions found in the period.'', []],
                    results @ [Stats inst]))))"

fun join_lines :: "string list \<Rightarrow> string" where
  "join_lines [] = []"
| "join_lines [l] = l"
| "join_lines (l # ls) = l @ line_feed # join_lines ls"

text \<open>
  \<open>generateReport\<close> returns the summary text; the second component is the argument as
  the call leaves it.
\<close>

definition generateReport :: "installation_result list \<Rightarrow> string \<times> installation_result list" where
  "generateReport results =
     (case fold render_installation results ([], []) of
        (report_lines, results') \<Rightarrow> (join_lines report_lines, results'))"

section \<open>One installation\<close>

text \<open>
  The body of the loop of \<open>processInstallations\<close> for one installation: the repository
  listing throws or returns; any error becomes an error record. The cutoff is a parameter:
  the clock and the calendar arithmetic of \<open>calculateCutoffDate\<close> are outside the model.
\<close>

definition process_installation ::
  "installation \<Rightarrow> api_error + repository list \<Rightarrow> octokit \<Rightarrow> int \<Rightarrow> instant
     \<Rightarrow> installation_result option" where
  "process_installation inst repos_response api days_to_look_back cutoff_date =
     (case repos_response of
        Inl e \<Rightarrow>
          Some (Failed \<lparr>err_id = installation_id inst, err_account = account_login inst,
                        error = message e\<rparr>)
      | Inr repos \<Rightarrow>
          map_option (\<lambda>stats_by_user.
              Stats (formatInstallationStats inst days_to_look_back stats_by_user))
            (collectUserStats api (filterUpdatedRepositories repos cutoff_date) cutoff_date))"

section \<open>Reading the accumulators\<close>

text \<open>
  The total of pull requests opened by author \<open>a\<close>; an absent accumulator counts as
  zero.
\<close>

definition opened_total :: "user_stats \<Rightarrow> string \<Rightarrow> nat" where
  "opened_total us a = (case map_of us a of None \<Rightarrow> 0 | Some acc \<Rightarrow> acc_total_prs_opened acc)"

text \<open>
  The branches of a repository whose history queries all return, given as pairs of branch
  name and history.
\<close>

definition branches_of :: "(string \<times> commit list) list \<Rightarrow> branch list" where
  "branches_of hs = map (\<lambda>nh. \<lparr>branch_name = fst nh, history = Inr (snd nh)\<rparr>) hs"

section \<open>Properties of all accumulators\<close>

text \<open>
  The counting part of \<open>processPullRequest\<close> on one accumulator, with the two tests
  as parameters: \<open>b1\<close> is "created at or after the cutoff", \<open>b2\<close> is "closed at or
  after the cutoff".
\<close>

definition count_pr :: "bool \<Rightarrow> bool \<Rightarrow> string \<Rightarrow> author_stats \<Rightarrow> author_stats" where
  "count_pr b1 b2 r acc =
     (let acc0 = pr_entry r acc;
          acc1 = (if b1 then count_opened r acc0 else acc0)
      in if b2 then count_closed r acc1 else acc1)"

definition closed_in_period :: "'a pull_request_scheme \<Rightarrow> instant \<Rightarrow> bool" where
  "closed_in_period pr cutoff = (case closed_at pr of None \<Rightarrow> False | Some t \<Rightarrow> t \<ge> cutoff)"

text \<open>
  A property \<open>Q\<close> of accumulators is kept by the steps taken for a repository named
  \<open>r\<close>, and holds of all accumulators of a pass.
\<close>

definition steps_keep :: "(author_stats \<Rightarrow> bool) \<Rightarrow> string \<Rightarrow> bool" where
  "steps_keep Q r =
     ((\<forall>i. Q (new_author i))
      \<and> (\<forall>acc i. Q acc \<longrightarrow> Q (acc\<lparr>acc_user_id := i\<rparr>))
      \<and> (\<forall>acc. Q acc \<longrightarrow> Q (count_commit r acc))
      \<and> (\<forall>acc b1 b2. Q acc \<longrightarrow> Q (count_pr b1 b2 r acc)))"

definition all_accumulators :: "(author_stats \<Rightarrow> bool) \<Rightarrow> user_stats \<Rightarrow> bool" where
  "all_accumulators Q us = list_all (\<lambda>kv. Q (snd kv)) us"

text \<open>No own key of \<^verbatim>\<open>pull_requests_by_repo\<close> names an inherited property.\<close>

definition ordinary_pr_keys :: "author_stats \<Rightarrow> bool" where
  "ordinary_pr_keys acc = list_all (\<lambda>kv. \<not> inherited (fst kv)) (pull_requests_by_repo acc)"

text \<open>
  The sum invariant of one accumulator: every stored commit count is a number, and each
  total is the sum of the per-repository counts.
\<close>

definition count_value :: "js_count \<Rightarrow> nat" where
  "count_value c = (case c of Num n \<Rightarrow> n | NaN \<Rightarrow> 0)"

definition acc_consistent :: "author_stats \<Rightarrow> bool" where
  "acc_consistent acc =
     (list_all (\<lambda>kv. snd kv \<noteq> NaN) (commits_by_repo acc)
      \<and> acc_total_commits acc = sum_list (map (\<lambda>kv. count_value (snd kv)) (commits_by_repo acc))
      \<and> acc_total_prs_opened acc = sum_list (map (\<lambda>kv. opened (snd kv)) (pull_requests_by_repo acc))
      \<and> acc_total_prs_closed acc = sum_list (map (\<lambda>kv. closed (snd kv)) (pull_requests_by_repo acc)))"

section \<open>What the fallback has read\<close>

text \<open>
  The matching items of the answers to the requests \<open>reqs\<close>, the \<open>n\<close>-th of which
  asked for page \<open>reqs ! n\<close>, in the order of the requests; a request that threw
  contributes none. \<open>fetched_from\<close> counts the requests from \<open>k\<close>.
\<close>

definition matching :: "pulls_endpoint \<Rightarrow> instant \<Rightarrow> nat \<Rightarrow> int \<Rightarrow> pull_request list" where
  "matching pulls cutoff n p =
     (case pulls n p of
        Inl e \<Rightarrow> []
      | Inr prs \<Rightarrow> filter (\<lambda>pr. pr_updated_at pr \<ge> cutoff) prs)"

fun fetched_from :: "pulls_endpoint \<Rightarrow> instant \<Rightarrow> nat \<Rightarrow> int list \<Rightarrow> pull_request list" where
  "fetched_from pulls cutoff k [] = []"
| "fetched_from pulls cutoff k (p # ps) =
     matching pulls cutoff k p @ fetched_from pulls cutoff (Suc k) ps"

definition fetched :: "pulls_endpoint \<Rightarrow> instant \<Rightarrow> int list \<Rightarrow> pull_request list" where
  "fetched pulls cutoff reqs = fetched_from pulls cutoff 0 reqs"

section \<open>The report, block by block\<close>

text \<open>
  What the report holds for one user and for one result, and the records as the renderer
  leaves them, written without the loop state.
\<close>

definition sorted_user :: "UserStat \<Rightarrow> UserStat" where
  "sorted_user u = u\<lparr>repo_contributions := js_sort compare_repos (repo_contributions u)\<rparr>"

definition user_block :: "UserStat \<Rightarrow> string list" where
  "user_block u =
     [user_line u, total_line u, ''  Contributions by repository:'']
       @ map repo_line (js_sort compare_repos (repo_contributions u))"

definition installation_block :: "installation_result \<Rightarrow> string list" where
  "installation_block res =
     (case res of
        Failed e \<Rightarrow> [error_line e]
      | Stats inst \<Rightarrow>
          header_line inst
            # (if user_stats inst \<noteq> []
               then concat (map user_block (js_sort compare_users (user_stats inst)))
               else [''  No contributions found in the period.''])
            @ [[]])"

definition sorted_result :: "installation_result \<Rightarrow> installation_result" where
  "sorted_result res =
     (case res of
        Failed e \<Rightarrow> Failed e
      | Stats inst \<Rightarrow>
          Stats (inst\<lparr>user_stats := map sorted_user (js_sort compare_users (user_stats inst))\<rparr>))"

section \<open>Example data\<close>

text \<open>
  The inputs on which the properties below are evaluated: a cutoff, a repository with two
  branches that share commits, pull requests, answers of the hosting API, and results to
  render.
\<close>

definition ex_cutoff :: instant where
  "ex_cutoff = 1000"

definition ex_user :: "string \<Rightarrow> gh_user" where
  "ex_user l = \<lparr>login = l, uid = None, databaseId = None, node_id = None\<rparr>"

definition ex_commit :: "string \<Rightarrow> string \<Rightarrow> commit" where
  "ex_commit h l =
     \<lparr>oid = h, author = Some \<lparr>user = Some (ex_user l), author_name = None, email = None\<rparr>\<rparr>"

definition ex_histories :: "(string \<times> commit list) list" where
  "ex_histories =
     [(''main'', [ex_commit ''c1'' ''alice'', ex_commit ''c2'' ''bob'']),
      (''dev'', [ex_commit ''c3'' ''alice'', ex_commit ''c2'' ''bob'', ex_commit ''c1'' ''alice''])]"

definition ex_pr :: "int \<Rightarrow> string \<Rightarrow> instant \<Rightarrow> instant option \<Rightarrow> instant \<Rightarrow> pull_request" where
  "ex_pr n l created closed_time updated =
     \<lparr>number = n, pr_user = Some (ex_user l), created_at = created, closed_at = closed_time,
      pr_updated_at = updated\<rparr>"

definition ex_repo :: repository where
  "ex_repo = \<lparr>owner_login = ''acme'', repository_name = ''widgets'',
              pushed_at = Some 2000, updated_at = Some 1500\<rparr>"

text \<open>
  A repository whose search finds nothing and whose list endpoint has one short page.
\<close>

definition ex_feed :: repo_feed where
  "ex_feed =
     \<lparr>branches_response = Inr (branches_of ex_histories),
      search_response = Inr \<lparr>total_count = 0, items = []\<rparr>,
      pulls_response = (\<lambda>n p. if p = 1
         then Inr [ex_pr 12 ''carol'' 500 (Some 1500) 1500, ex_pr 13 ''alice'' 1200 None 1300]
         else Inr [])\<rparr>"

text \<open>The accumulators after the pass over that repository.\<close>

definition ex_stats :: user_stats where
  "ex_stats =
     [(''alice'',
       \<lparr>acc_user_id = None, commits_by_repo = [(''widgets'', Num 2)],
        pull_requests_by_repo = [(''widgets'', \<lparr>opened = 1, closed = 0\<rparr>)],
        acc_total_commits = 2, acc_total_prs_opened = 1, acc_total_prs_closed = 0\<rparr>),
      (''bob'',
       \<lparr>acc_user_id = None, commits_by_repo = [(''widgets'', Num 1)],
        pull_requests_by_repo = [],
        acc_total_commits = 1, acc_total_prs_opened = 0, acc_total_prs_closed = 0\<rparr>),
      (''carol'',
       \<lparr>acc_user_id = None, commits_by_repo = [],
        pull_requests_by_repo = [(''widgets'', \<lparr>opened = 0, closed = 1\<rparr>)],
        acc_total_commits = 0, acc_total_prs_opened = 0, acc_total_prs_closed = 1\<rparr>)]"

text \<open>Two users, listed with the smaller total first, and a failed installation.\<close>

definition ex_ann :: UserStat where
  "ex_ann =
     \<lparr>name = ''ann'', user_id = None, total_commits = 3, total_prs_opened = 1,
      total_prs_closed = 1,
      repo_contributions =
        [\<lparr>repo_name = ''docs'', commits = 1, prs_opened = 0, prs_closed = 0\<rparr>,
         \<lparr>repo_name = ''widgets'', commits = 2, prs_opened = 1, prs_closed = 1\<rparr>]\<rparr>"

definition ex_ben :: UserStat where
  "ex_ben =
     \<lparr>name = ''ben'', user_id = Some (IdNum 42), total_commits = 10, total_prs_opened = 2,
      total_prs_closed = 0,
      repo_contributions =
        [\<lparr>repo_name = ''widgets'', commits = 10, prs_opened = 2, prs_closed = 0\<rparr>]\<rparr>"

definition ex_acme_stats :: InstallationStats where
  "ex_acme_stats =
     \<lparr>inst_id = 1, account = ''acme'', account_type = ''Organization'', period_days = 7,
      user_stats = [ex_ann, ex_ben]\<rparr>"

definition ex_results :: "installation_result list" where
  "ex_results =
     [Stats ex_acme_stats,
      Failed \<lparr>err_id = 2, err_account = ''initech'', error = ''Bad credentials''\<rparr>]"

text \<open>A full page: a hundred pull requests numbered from \<open>first\<close>.\<close>

definition ex_page :: "int \<Rightarrow> instant \<Rightarrow> instant \<Rightarrow> pull_request list" where
  "ex_page first created updated = map (\<lambda>n. ex_pr n ''dora'' created None updated) [first..first + 99]"

definition rate_limit_error :: api_error where
  "rate_limit_error = \<lparr>status = Some 403, message = ''API rate limit exceeded''\<rparr>"

text \<open>
  An endpoint with a full first page of recent pull requests and one more recent pull
  request on the second page, whose second answer is a rate-limit error.
\<close>

definition ex_flaky :: pulls_endpoint where
  "ex_flaky n p =
     (if n = 1 then Inl rate_limit_error
      else if p = 1 then Inr (ex_page 2 1200 1500)
      else if p = 2 then Inr [ex_pr 1 ''dora'' 1100 None 1100]
      else Inr [])"

text \<open>
  An endpoint with a full first page of recent pull requests, a full second page of pull
  requests last updated before the cutoff, and a third page.
\<close>

definition ex_paged :: pulls_endpoint where
  "ex_paged n p =
     (if p = 1 then Inr (ex_page 102 1200 1500)
      else if p = 2 then Inr (ex_page 2 200 900)
      else if p = 3 then Inr [ex_pr 1 ''dora'' 100 None 800]
      else Inr [])"

text \<open>An endpoint whose first page is full and holds no recent pull request.\<close>

definition ex_stale_first :: pulls_endpoint where
  "ex_stale_first n p = (if p = 1 then Inr (ex_page 2 200 900) else Inr [])"

text \<open>
  A pull request updated inside the window, created before the cutoff and still open, as
  an item of the search response and as an item of the list endpoint.
\<close>

definition ex_stale_item :: search_item where
  "ex_stale_item =
     \<lparr>number = 12, pr_user = Some (ex_user ''carol''), created_at = 500, closed_at = None,
      pr_updated_at = 1500,
      pull_request_url = Some ''https://api.github.com/repos/acme/widgets/pulls/12''\<rparr>"

definition ex_stale_feed :: repo_feed where
  "ex_stale_feed =
     \<lparr>branches_response = Inr [],
      search_response = Inr \<lparr>total_count = 1, items = [ex_stale_item]\<rparr>,
      pulls_response = (\<lambda>n p. Inr [])\<rparr>"

definition ex_stale_fallback_feed :: repo_feed where
  "ex_stale_fallback_feed =
     \<lparr>branches_response = Inr [],
      search_response = Inl \<lparr>status = Some 422, message = ''Validation Failed''\<rparr>,
      pulls_response = (\<lambda>n p. if p = 1 then Inr [ex_pr 12 ''carol'' 500 None 1500] else Inr [])\<rparr>"

text \<open>The installation and the summary expected for it.\<close>

definition ex_installation :: installation where
  "ex_installation =
     \<lparr>installation_id = 1, account_login = ''acme'', account_kind = ''Organization''\<rparr>"

definition ex_zero_row :: RepoContribution where
  "ex_zero_row = \<lparr>repo_name = ''widgets'', commits = 0, prs_opened = 0, prs_closed = 0\<rparr>"

definition ex_zero_user :: UserStat where
  "ex_zero_user =
     \<lparr>name = ''carol'', user_id = None, total_commits = 0, total_prs_opened = 0,
      total_prs_closed = 0, repo_contributions = [ex_zero_row]\<rparr>"

definition ex_zero_stats :: InstallationStats where
  "ex_zero_stats =
     \<lparr>inst_id = 1, account = ''acme'', account_type = ''Organization'', period_days = 7,
      user_stats = [ex_zero_user]\<rparr>"

text \<open>
  A repository named like a property that every object inherits, an endpoint with no pull
  requests, and answers of the hosting API for such a repository: one commit reachable
  from two branches; two commits and a pull request of one author.
\<close>

definition ex_constructor_repo :: repository where
  "ex_constructor_repo = \<lparr>owner_login = ''acme'', repository_name = ''constructor'',
                          pushed_at = Some 2000, updated_at = Some 1500\<rparr>"

definition ex_no_pulls :: pulls_endpoint where
  "ex_no_pulls n p = Inr []"

definition ex_shared_commit_feed :: repo_feed where
  "ex_shared_commit_feed =
     \<lparr>branches_response =
        Inr (branches_of [(''main'', [ex_commit ''c1'' ''alice'']),
                          (''dev'', [ex_commit ''c1'' ''alice''])]),
      search_response = Inr \<lparr>total_count = 0, items = []\<rparr>,
      pulls_response = ex_no_pulls\<rparr>"

definition ex_constructor_pr :: search_item where
  "ex_constructor_pr =
     \<lparr>number = 5, pr_user = Some (ex_user ''bob''), created_at = 1200, closed_at = None,
      pr_updated_at = 1300,
      pull_request_url = Some ''https://api.github.com/repos/acme/constructor/pulls/5''\<rparr>"

definition ex_two_commits_feed :: repo_feed where
  "ex_two_commits_feed =
     \<lparr>branches_response =
        Inr (branches_of [(''main'', [ex_commit ''c1'' ''bob'', ex_commit ''c2'' ''bob''])]),
      search_response = Inr \<lparr>total_count = 1, items = [ex_constructor_pr]\<rparr>,
      pulls_response = ex_no_pulls\<rparr>"

text \<open>
  A repository with an ordinary name and an author whose identity is such a name: the
  commit of that author is on two branches, followed on the first by a commit of another
  author.
\<close>

definition ex_named_constructor_feed :: repo_feed where
  "ex_named_constructor_feed =
     \<lparr>branches_response =
        Inr (branches_of [(''main'', [ex_commit ''c1'' ''constructor'', ex_commit ''c2'' ''alice'']),
                          (''dev'', [ex_commit ''c1'' ''constructor''])]),
      search_response = Inr \<lparr>total_count = 0, items = []\<rparr>,
      pulls_response = ex_no_pulls\<rparr>"

text \<open>
  A repository whose search finds nothing and whose list endpoint answers the second
  request with a rate-limit error.
\<close>

definition ex_flaky_feed :: repo_feed where
  "ex_flaky_feed =
     \<lparr>branches_response = Inr [],
      search_response = Inr \<lparr>total_count = 0, items = []\<rparr>,
      pulls_response = ex_flaky\<rparr>"

section \<open>Properties\<close>

subsection \<open>The pagination loop\<close>

lemma pagination_loop_invariant:
  assumes run: "pagination_loop pulls r cutoff s = Some s'"
    and init: "I s"
    and step: "\<And>t. I t \<Longrightarrow> has_more_pages t \<Longrightarrow> I (fetch_page pulls r cutoff t)"
  shows "I s' \<and> \<not> has_more_pages s'"
proof -
  define P where
    "P = (\<lambda>p rn c t t'. p = pulls \<longrightarrow> rn = r \<longrightarrow> c = cutoff \<longrightarrow> I t
            \<longrightarrow> I t' \<and> \<not> has_more_pages t')"
  have "P pulls r cutoff s s'"
  proof (rule pagination_loop.raw_induct[where P = P, OF _ run])
    fix loop p rn c t t'
    assume IH: "\<And>p rn c t t'. loop p rn c t = Some t' \<Longrightarrow> P p rn c t t'"
      and body: "(if has_more_pages t then loop p rn c (fetch_page p rn c t) else Some t) = Some t'"
    show "P p rn c t t'"
    proof (cases "has_more_pages t")
      case True
      with body have "P p rn c (fetch_page p rn c t) t'" by (simp add: IH)
      with True step show ?thesis unfolding P_def by blast
    next
      case False
      with body show ?thesis unfolding P_def by auto
    qed
  qed
  with init show ?thesis unfolding P_def by simp
qed

subsection \<open>Repository filter\<close>

text \<open>
  C8. The repository filter returns the order-preserving subsequence of its input holding
  exactly the repositories whose latest activity, the later of push and update time, is at
  or after the cutoff; a missing push or update time counts as the epoch, so a repository
  missing both is kept exactly when the cutoff is at or before the epoch.
\<close>

theorem filterUpdatedRepositories_spec:
  "subseq (filterUpdatedRepositories repos cutoff) repos
   \<and> filterUpdatedRepositories repos cutoff =
       filter (\<lambda>r. cutoff \<le> max (case pushed_at r of None \<Rightarrow> 0 | Some d \<Rightarrow> d)
                               (case updated_at r of None \<Rightarrow> 0 | Some d \<Rightarrow> d)) repos
   \<and> filterUpdatedRepositories [r\<lparr>pushed_at := Some p, updated_at := Some u\<rparr>] cutoff
       = (if cutoff \<le> max p u then [r\<lparr>pushed_at := Some p, updated_at := Some u\<rparr>] else [])
   \<and> filterUpdatedRepositories [r\<lparr>pushed_at := Some p, updated_at := None\<rparr>] cutoff
       = (if cutoff \<le> max p 0 then [r\<lparr>pushed_at := Some p, updated_at := None\<rparr>] else [])
   \<and> filterUpdatedRepositories [r\<lparr>pushed_at := None, updated_at := Some u\<rparr>] cutoff
       = (if cutoff \<le> max 0 u then [r\<lparr>pushed_at := None, updated_at := Some u\<rparr>] else [])
   \<and> filterUpdatedRepositories [r\<lparr>pushed_at := None, updated_at := None\<rparr>] cutoff
       = (if cutoff \<le> 0 then [r\<lparr>pushed_at := None, updated_at := None\<rparr>] else [])"
proof -
  have eq: "was_updated_in_period cutoff =
      (\<lambda>r. cutoff \<le> max (case pushed_at r of None \<Rightarrow> 0 | Some d \<Rightarrow> d)
                        (case updated_at r of None \<Rightarrow> 0 | Some d \<Rightarrow> d))"
    by (rule ext) (simp add: was_updated_in_period_def date_or_epoch_def Let_def max_def)
  show ?thesis
    unfolding filterUpdatedRepositories_def eq by simp
qed

text \<open>
  The example of the specification, in milliseconds since the epoch with a day of
  86400000: on day 100 and with a window of 7 days the cutoff is day 93; a repository
  pushed on day 90 and updated on day 99 is kept, one pushed on day 80 and updated on
  day 85 is dropped, one updated exactly at the cutoff is kept, and one with no
  timestamp is dropped.
\<close>

theorem filterUpdatedRepositories_example:
  "filterUpdatedRepositories
     [\<lparr>owner_login = ''acme'', repository_name = ''widgets'',
       pushed_at = Some 7776000000, updated_at = Some 8553600000\<rparr>,
      \<lparr>owner_login = ''acme'', repository_name = ''attic'',
       pushed_at = Some 6912000000, updated_at = Some 7344000000\<rparr>,
      \<lparr>owner_login = ''acme'', repository_name = ''edge'',
       pushed_at = None, updated_at = Some 8035200000\<rparr>,
      \<lparr>owner_login = ''acme'', repository_name = ''empty'',
       pushed_at = None, updated_at = None\<rparr>]
     8035200000
   = [\<lparr>owner_login = ''acme'', repository_name = ''widgets'',
       pushed_at = Some 7776000000, updated_at = Some 8553600000\<rparr>,
      \<lparr>owner_login = ''acme'', repository_name = ''edge'',
       pushed_at = None, updated_at = Some 8035200000\<rparr>]"
  by (simp add: filterUpdatedRepositories_spec[THEN conjunct2, THEN conjunct1])

subsection \<open>Report renderer\<close>

lemma js_sort_sort_key:
  assumes "\<And>x y. cmp x y \<le> 0 \<longleftrightarrow> f x \<le> (f y :: int)"
  shows "js_sort cmp xs = sort_key f xs"
proof -
  have ins: "insert_sorted cmp x ys = insort_key f x ys" for x ys
    by (induction ys) (simp_all add: assms)
  show ?thesis
    unfolding js_sort_def by (induction xs) (simp_all add: ins)
qed

lemma js_sort_users: "js_sort compare_users us = sort_key (\<lambda>u. - int (user_total u)) us"
  by (rule js_sort_sort_key) (simp add: compare_users_def)

lemma js_sort_repos: "js_sort compare_repos rs = sort_key (\<lambda>r. - int (repo_total r)) rs"
  by (rule js_sort_sort_key) (simp add: compare_repos_def)

lemma sorted_desc_sort_key:
  "sorted_wrt (\<lambda>a b. k b \<le> (k a :: nat)) (sort_key (\<lambda>u. - int (k u)) xs)"
proof -
  have "sorted (map (\<lambda>u. - int (k u)) (sort_key (\<lambda>u. - int (k u)) xs))"
    by (rule sorted_sort_key)
  then show ?thesis by (simp add: sorted_map)
qed

lemma stable_desc_sort_key:
  "filter (\<lambda>u. k u = (v :: nat)) (sort_key (\<lambda>u. - int (k u)) xs) = filter (\<lambda>u. k u = v) xs"
  using sort_key_stable[of "\<lambda>u. - int (k u)" "- int v" xs] by simp

lemma fold_render_user:
  "fold render_user us (ls, done) = (ls @ concat (map user_block us), done @ map sorted_user us)"
  by (induction us arbitrary: ls "done")
     (simp_all add: render_user_def user_block_def sorted_user_def Let_def)

lemma render_installation_block:
  "render_installation res (ls, rs) = (ls @ installation_block res, rs @ [sorted_result res])"
proof (cases res)
  case (Failed e)
  then show ?thesis
    by (simp add: render_installation_def installation_block_def sorted_result_def)
next
  case (Stats inst)
  show ?thesis
  proof (cases "user_stats inst = []")
    case True
    then have "js_sort compare_users (user_stats inst) = []" by (simp add: js_sort_def)
    with True Stats show ?thesis
      by (simp add: render_installation_def installation_block_def sorted_result_def)
  next
    case False
    with Stats show ?thesis
      by (simp add: render_installation_def installation_block_def sorted_result_def
            fold_render_user Let_def)
  qed
qed

lemma fold_render_installation:
  "fold render_installation results (ls, rs)
     = (ls @ concat (map installation_block results), rs @ map sorted_result results)"
  by (induction results arbitrary: ls rs) (simp_all add: render_installation_block)

lemma generateReport_blocks:
  "generateReport results
     = (join_lines (concat (map installation_block results)), map sorted_result results)"
  by (simp add: generateReport_def fold_render_installation)

text \<open>
  C2, as stated, fails: the renderer does not leave its argument unchanged. On a result
  whose users are listed as ann (total 5) and ben (total 12), the call leaves the array
  of users in the order ben, ann.
\<close>

theorem generateReport_not_pure:
  "snd (generateReport ex_results) \<noteq> ex_results
   \<and> map (\<lambda>res. case res of Stats inst \<Rightarrow> map name (user_stats inst) | Failed e \<Rightarrow> [])
        ex_results = [[''ann'', ''ben''], []]
   \<and> map (\<lambda>res. case res of Stats inst \<Rightarrow> map name (user_stats inst) | Failed e \<Rightarrow> [])
        (snd (generateReport ex_results)) = [[''ben'', ''ann''], []]"
  by code_simp

text \<open>
  C2, amended. \<open>generateReport\<close> returns the summary text: the lines of the blocks of
  the installations, in the order of the results, joined by line feeds. It is not free of
  effects. The list of results keeps its length and order and every error record is
  unchanged, but in every success record the array of users is left sorted in descending
  order of commits plus opened plus closed pull requests, users with equal sums in their
  former order, and in every user the array of repository contributions is left sorted
  by the same rule. Sorting only permutes an array.
\<close>

theorem generateReport_effect:
  "fst (generateReport results) = join_lines (concat (map installation_block results))
   \<and> join_lines [] = []
   \<and> join_lines [l] = l
   \<and> join_lines (l # m # ls) = l @ CHR 0x0A # join_lines (m # ls)
   \<and> installation_block (Failed e) = [error_line e]
   \<and> installation_block (Stats inst)
       = header_line inst
           # (if user_stats inst \<noteq> []
              then concat (map (\<lambda>u. user_line u # total_line u # ''  Contributions by repository:''
                                    # map repo_line (js_sort compare_repos (repo_contributions u)))
                         (js_sort compare_users (user_stats inst)))
              else [''  No contributions found in the period.''])
           @ [[]]
   \<and> length (snd (generateReport results)) = length results
   \<and> snd (generateReport results)
       = map (\<lambda>res. case res of
                Failed e \<Rightarrow> Failed e
              | Stats inst \<Rightarrow>
                  Stats (inst\<lparr>user_stats :=
                    map (\<lambda>u. u\<lparr>repo_contributions := js_sort compare_repos (repo_contributions u)\<rparr>)
                      (js_sort compare_users (user_stats inst))\<rparr>))
           results
   \<and> sorted_wrt (\<lambda>a b. total_commits b + total_prs_opened b + total_prs_closed b
                         \<le> total_commits a + total_prs_opened a + total_prs_closed a)
        (js_sort compare_users us)
   \<and> filter (\<lambda>u. total_commits u + total_prs_opened u + total_prs_closed u = k)
        (js_sort compare_users us)
       = filter (\<lambda>u. total_commits u + total_prs_opened u + total_prs_closed u = k) us
   \<and> mset (js_sort compare_users us) = mset us
   \<and> sorted_wrt (\<lambda>a b. commits b + prs_opened b + prs_closed b
                         \<le> commits a + prs_opened a + prs_closed a)
        (js_sort compare_repos rs)
   \<and> filter (\<lambda>r. commits r + prs_opened r + prs_closed r = k) (js_sort compare_repos rs)
       = filter (\<lambda>r. commits r + prs_opened r + prs_closed r = k) rs
   \<and> mset (js_sort compare_repos rs) = mset rs"
proof -
  have rtext: "fst (generateReport results) = join_lines (concat (map installation_block results))"
    by (simp add: generateReport_blocks)
  have j: "join_lines [] = [] \<and> join_lines [l] = l
      \<and> join_lines (l # m # ls) = l @ CHR 0x0A # join_lines (m # ls)"
    by (simp add: line_feed_def)
  have blk: "installation_block (Failed e) = [error_line e]
      \<and> installation_block (Stats inst)
       = header_line inst
           # (if user_stats inst \<noteq> []
              then concat (map (\<lambda>u. user_line u # total_line u # ''  Contributions by repository:''
                                    # map repo_line (js_sort compare_repos (repo_contributions u)))
                         (js_sort compare_users (user_stats inst)))
              else [''  No contributions found in the period.''])
           @ [[]]"
  proof -
    have ub: "user_block = (\<lambda>u. user_line u # total_line u # ''  Contributions by repository:''
                                    # map repo_line (js_sort compare_repos (repo_contributions u)))"
      by (rule ext) (simp add: user_block_def)
    show ?thesis unfolding ub[symmetric] by (simp add: installation_block_def)
  qed
  have sr: "sorted_result = (\<lambda>res. case res of
                Failed e \<Rightarrow> Failed e
              | Stats inst \<Rightarrow>
                  Stats (inst\<lparr>user_stats :=
                    map (\<lambda>u. u\<lparr>repo_contributions := js_sort compare_repos (repo_contributions u)\<rparr>)
                      (js_sort compare_users (user_stats inst))\<rparr>))"
    by (rule ext) (simp add: sorted_result_def sorted_user_def split: installation_result.splits)
  have res: "length (snd (generateReport results)) = length results
      \<and> snd (generateReport results)
       = map (\<lambda>res. case res of
                Failed e \<Rightarrow> Failed e
              | Stats inst \<Rightarrow>
                  Stats (inst\<lparr>user_stats :=
                    map (\<lambda>u. u\<lparr>repo_contributions := js_sort compare_repos (repo_contributions u)\<rparr>)
                      (js_sort compare_users (user_stats inst))\<rparr>))
           results"
    unfolding sr[symmetric] by (simp add: generateReport_blocks)
  have users: "sorted_wrt (\<lambda>a b. total_commits b + total_prs_opened b + total_prs_closed b
                         \<le> total_commits a + total_prs_opened a + total_prs_closed a)
        (js_sort compare_users us)
   \<and> filter (\<lambda>u. total_commits u + total_prs_opened u + total_prs_closed u = k)
        (js_sort compare_users us)
       = filter (\<lambda>u. total_commits u + total_prs_opened u + total_prs_closed u = k) us
   \<and> mset (js_sort compare_users us) = mset us"
    using sorted_desc_sort_key[of user_total us] stable_desc_sort_key[of user_total k us]
    by (simp add: js_sort_users user_total_def)
  have repos: "sorted_wrt (\<lambda>a b. commits b + prs_opened b + prs_closed b
                         \<le> commits a + prs_opened a + prs_closed a)
        (js_sort compare_repos rs)
   \<and> filter (\<lambda>r. commits r + prs_opened r + prs_closed r = k) (js_sort compare_repos rs)
       = filter (\<lambda>r. commits r + prs_opened r + prs_closed r = k) rs
   \<and> mset (js_sort compare_repos rs) = mset rs"
    using sorted_desc_sort_key[of repo_total rs] stable_desc_sort_key[of repo_total k rs]
    by (simp add: js_sort_repos repo_total_def)
  from rtext j blk res users repos show ?thesis by (intro conjI) blast+
qed

theorem generateReport_effect_witness:
  "generateReport
     [Failed \<lparr>err_id = 2, err_account = ''initech'', error = ''Bad credentials''\<rparr>,
      Stats ex_acme_stats]
   = ([CHR 0xC3, CHR 0xA2, CHR 0xC5, CHR 0xA1, CHR 0xC2, CHR 0xA0, CHR 0xC3, CHR 0xAF, CHR 0xC2, CHR 0xB8] @ '' Installation initech: Bad credentials'' @ [CHR 0x0A]
           @ [CHR 0xC3, CHR 0xB0, CHR 0xC5, CHR 0xB8, CHR 0xE2, CHR 0x80, CHR 0x9C, CHR 0xC5, CHR 0xA0] @ '' Statistics for acme (Organization) - Last week:'' @ [CHR 0x0A]
           @ [CHR 0x0A] @ [CHR 0xC3, CHR 0xB0, CHR 0xC5, CHR 0xB8, CHR 0xE2, CHR 0x80, CHR 0x98, CHR 0xC2, CHR 0xA4] @ '' ben (ID: 42):'' @ [CHR 0x0A]
           @ ''  Total: 10 commits, 2 PRs opened, 0 PRs closed'' @ [CHR 0x0A]
           @ ''  Contributions by repository:'' @ [CHR 0x0A]
           @ ''    - widgets: 10 commits, 2 PRs opened, 0 PRs closed'' @ [CHR 0x0A]
           @ [CHR 0x0A] @ [CHR 0xC3, CHR 0xB0, CHR 0xC5, CHR 0xB8, CHR 0xE2, CHR 0x80, CHR 0x98, CHR 0xC2, CHR 0xA4] @ '' ann:'' @ [CHR 0x0A]
           @ ''  Total: 3 commits, 1 PRs opened, 1 PRs closed'' @ [CHR 0x0A]
           @ ''  Contributions by repository:'' @ [CHR 0x0A]
           @ ''    - widgets: 2 commits, 1 PRs opened, 1 PRs closed'' @ [CHR 0x0A]
           @ ''    - docs: 1 commits, 0 PRs opened, 0 PRs closed'' @ [CHR 0x0A]
           @ '''',
      [Failed \<lparr>err_id = 2, err_account = ''initech'', error = ''Bad credentials''\<rparr>,
       Stats \<lparr>inst_id = 1, account = ''acme'', account_type = ''Organization'', period_days = 7,
         user_stats =
           [\<lparr>name = ''ben'', user_id = Some (IdNum 42), total_commits = 10, total_prs_opened = 2,
             total_prs_closed = 0,
             repo_contributions =
               [\<lparr>repo_name = ''widgets'', commits = 10, prs_opened = 2, prs_closed = 0\<rparr>]\<rparr>,
            \<lparr>name = ''ann'', user_id = None, total_commits = 3, total_prs_opened = 1,
             total_prs_closed = 1,
             repo_contributions =
               [\<lparr>repo_name = ''widgets'', commits = 2, prs_opened = 1, prs_closed = 1\<rparr>,
                \<lparr>repo_name = ''docs'', commits = 1, prs_opened = 0, prs_closed = 0\<rparr>]\<rparr>]\<rparr>])"
proof -
  let ?input = "[Failed \<lparr>err_id = 2, err_account = ''initech'', error = ''Bad credentials''\<rparr>,
      Stats ex_acme_stats]"
  from generateReport_effect[of ?input]
  have 1: "fst (generateReport ?input) = join_lines (concat (map installation_block ?input))"
    and 2: "snd (generateReport ?input)
       = map (\<lambda>res. case res of
                Failed e \<Rightarrow> Failed e
              | Stats inst \<Rightarrow>
                  Stats (inst\<lparr>user_stats :=
                    map (\<lambda>u. u\<lparr>repo_contributions := js_sort compare_repos (repo_contributions u)\<rparr>)
                      (js_sort compare_users (user_stats inst))\<rparr>))
           ?input"
    by blast+
  have f: "fst (generateReport ?input)
      = [CHR 0xC3, CHR 0xA2, CHR 0xC5, CHR 0xA1, CHR 0xC2, CHR 0xA0, CHR 0xC3, CHR 0xAF, CHR 0xC2, CHR 0xB8] @ '' Installation initech: Bad credentials'' @ [CHR 0x0A]
           @ [CHR 0xC3, CHR 0xB0, CHR 0xC5, CHR 0xB8, CHR 0xE2, CHR 0x80, CHR 0x9C, CHR 0xC5, CHR 0xA0] @ '' Statistics for acme (Organization) - Last week:'' @ [CHR 0x0A]
           @ [CHR 0x0A] @ [CHR 0xC3, CHR 0xB0, CHR 0xC5, CHR 0xB8, CHR 0xE2, CHR 0x80, CHR 0x98, CHR 0xC2, CHR 0xA4] @ '' ben (ID: 42):'' @ [CHR 0x0A]
           @ ''  Total: 10 commits, 2 PRs opened, 0 PRs closed'' @ [CHR 0x0A]
           @ ''  Contributions by repository:'' @ [CHR 0x0A]
           @ ''    - widgets: 10 commits, 2 PRs opened, 0 PRs closed'' @ [CHR 0x0A]
           @ [CHR 0x0A] @ [CHR 0xC3, CHR 0xB0, CHR 0xC5, CHR 0xB8, CHR 0xE2, CHR 0x80, CHR 0x98, CHR 0xC2, CHR 0xA4] @ '' ann:'' @ [CHR 0x0A]
           @ ''  Total: 3 commits, 1 PRs opened, 1 PRs closed'' @ [CHR 0x0A]
           @ ''  Contributions by repository:'' @ [CHR 0x0A]
           @ ''    - widgets: 2 commits, 1 PRs opened, 1 PRs closed'' @ [CHR 0x0A]
           @ ''    - docs: 1 commits, 0 PRs opened, 0 PRs closed'' @ [CHR 0x0A]
           @ ''''"
    unfolding 1 by code_simp
  have s: "snd (generateReport ?input)
      = [Failed \<lparr>err_id = 2, err_account = ''initech'', error = ''Bad credentials''\<rparr>,
       Stats \<lparr>inst_id = 1, account = ''acme'', account_type = ''Organization'', period_days = 7,
         user_stats =
           [\<lparr>name = ''ben'', user_id = Some (IdNum 42), total_commits = 10, total_prs_opened = 2,
             total_prs_closed = 0,
             repo_contributions =
               [\<lparr>repo_name = ''widgets'', commits = 10, prs_opened = 2, prs_closed = 0\<rparr>]\<rparr>,
            \<lparr>name = ''ann'', user_id = None, total_commits = 3, total_prs_opened = 1,
             total_prs_closed = 1,
             repo_contributions =
               [\<lparr>repo_name = ''widgets'', commits = 2, prs_opened = 1, prs_closed = 1\<rparr>,
                \<lparr>repo_name = ''docs'', commits = 1, prs_opened = 0, prs_closed = 0\<rparr>]\<rparr>]\<rparr>]"
    unfolding 2 by code_simp
  from f s show ?thesis by (simp add: prod_eq_iff)
qed

text \<open>
  C9. In the report, the block of a success result with at least one author lists the
  authors in descending order of commits plus opened plus closed pull requests, authors
  with equal totals in the order of the input, and the block of an author lists the
  repositories in descending order of the same sum with the same rule for ties. The
  header names the period "week" for 7 days, "month" for 30 days and "N days" otherwise.
\<close>

theorem report_order:
  "fst (generateReport results) = join_lines (concat (map installation_block results))
   \<and> join_lines [] = []
   \<and> join_lines [l] = l
   \<and> join_lines (l # m # ls) = l @ CHR 0x0A # join_lines (m # ls)
   \<and> installation_block (Failed e) = [error_line e]
   \<and> (user_stats inst = [] \<longrightarrow>
        installation_block (Stats inst)
          = [header_line inst, ''  No contributions found in the period.'', []])
   \<and> (user_stats inst \<noteq> [] \<longrightarrow>
        installation_block (Stats inst)
          = header_line inst
              # concat (map user_block (js_sort compare_users (user_stats inst))) @ [[]])
   \<and> sorted_wrt (\<lambda>a b. user_total b \<le> user_total a) (js_sort compare_users us)
   \<and> filter (\<lambda>u. user_total u = k) (js_sort compare_users us) = filter (\<lambda>u. user_total u = k) us
   \<and> mset (js_sort compare_users us) = mset us
   \<and> user_total u = total_commits u + total_prs_opened u + total_prs_closed u
   \<and> user_block u
       = user_line u # total_line u # ''  Contributions by repository:''
           # map repo_line (js_sort compare_repos (repo_contributions u))
   \<and> sorted_wrt (\<lambda>a b. repo_total b \<le> repo_total a) (js_sort compare_repos rs)
   \<and> filter (\<lambda>r. repo_total r = k) (js_sort compare_repos rs) = filter (\<lambda>r. repo_total r = k) rs
   \<and> mset (js_sort compare_repos rs) = mset rs
   \<and> repo_total r = commits r + prs_opened r + prs_closed r
   \<and> header_line inst
       = chart_sign @ '' Statistics for '' @ account inst @ '' ('' @ account_type inst
           @ '') - Last '' @ period_label (period_days inst) @ '':''
   \<and> period_label 7 = ''week''
   \<and> period_label 30 = ''month''
   \<and> (d \<noteq> 7 \<and> d \<noteq> 30 \<longrightarrow> period_label d = show_int d @ '' days'')
   \<and> chart_sign = [CHR 0xC3, CHR 0xB0, CHR 0xC5, CHR 0xB8, CHR 0xE2, CHR 0x80, CHR 0x9C, CHR 0xC5, CHR 0xA0]
   \<and> person_sign = [CHR 0xC3, CHR 0xB0, CHR 0xC5, CHR 0xB8, CHR 0xE2, CHR 0x80, CHR 0x98, CHR 0xC2, CHR 0xA4]
   \<and> warning_sign = [CHR 0xC3, CHR 0xA2, CHR 0xC5, CHR 0xA1, CHR 0xC2, CHR 0xA0, CHR 0xC3, CHR 0xAF, CHR 0xC2, CHR 0xB8]
   \<and> error_line e = warning_sign @ '' Installation '' @ err_account e @ '': '' @ error e
   \<and> user_line u
       = CHR 0x0A # person_sign @ '' '' @ name u
           @ (case user_id u of
                None \<Rightarrow> []
              | Some (IdStr s) \<Rightarrow> if s = [] then [] else '' (ID: '' @ s @ '')''
              | Some (IdNum n) \<Rightarrow> if n = 0 then [] else '' (ID: '' @ show_int n @ '')'')
           @ '':''
   \<and> total_line u
       = ''  Total: '' @ show_nat (total_commits u) @ '' commits, ''
           @ show_nat (total_prs_opened u) @ '' PRs opened, ''
           @ show_nat (total_prs_closed u) @ '' PRs closed''
   \<and> repo_line r
       = ''    - '' @ repo_name r @ '': '' @ show_nat (commits r) @ '' commits, ''
           @ show_nat (prs_opened r) @ '' PRs opened, ''
           @ show_nat (prs_closed r) @ '' PRs closed''
   \<and> show_int d = (if d < 0 then CHR ''-'' # show_nat (nat (- d)) else show_nat (nat d))
   \<and> show_nat n
       = (if n < 10 then [char_of (48 + n)] else show_nat (n div 10) @ [char_of (48 + n mod 10)])"
proof -
  have users: "sorted_wrt (\<lambda>a b. user_total b \<le> user_total a) (js_sort compare_users us)
      \<and> filter (\<lambda>u. user_total u = k) (js_sort compare_users us) = filter (\<lambda>u. user_total u = k) us
      \<and> mset (js_sort compare_users us) = mset us"
    by (simp add: js_sort_users sorted_desc_sort_key stable_desc_sort_key)
  have repos: "sorted_wrt (\<lambda>a b. repo_total b \<le> repo_total a) (js_sort compare_repos rs)
      \<and> filter (\<lambda>r. repo_total r = k) (js_sort compare_repos rs) = filter (\<lambda>r. repo_total r = k) rs
      \<and> mset (js_sort compare_repos rs) = mset rs"
    by (simp add: js_sort_repos sorted_desc_sort_key stable_desc_sort_key)
  have joined: "fst (generateReport results) = join_lines (concat (map installation_block results))
      \<and> join_lines [] = []
      \<and> join_lines [l] = l
      \<and> join_lines (l # m # ls) = l @ CHR 0x0A # join_lines (m # ls)"
    by (simp add: generateReport_blocks line_feed_def)
  have blocks: "installation_block (Failed e) = [error_line e]
      \<and> (user_stats inst = [] \<longrightarrow>
           installation_block (Stats inst)
             = [header_line inst, ''  No contributions found in the period.'', []])
      \<and> (user_stats inst \<noteq> [] \<longrightarrow>
           installation_block (Stats inst)
             = header_line inst
                 # concat (map user_block (js_sort compare_users (user_stats inst))) @ [[]])
      \<and> user_block u
          = user_line u # total_line u # ''  Contributions by repository:''
              # map repo_line (js_sort compare_repos (repo_contributions u))"
    by (simp add: installation_block_def user_block_def)
  have labels: "header_line inst
          = chart_sign @ '' Statistics for '' @ account inst @ '' ('' @ account_type inst
              @ '') - Last '' @ period_label (period_days inst) @ '':''
      \<and> period_label 7 = ''week''
      \<and> period_label 30 = ''month''
      \<and> (d \<noteq> 7 \<and> d \<noteq> 30 \<longrightarrow> period_label d = show_int d @ '' days'')"
    by (simp add: header_line_def period_label_def)
  have totals: "user_total u = total_commits u + total_prs_opened u + total_prs_closed u
      \<and> repo_total r = commits r + prs_opened r + prs_closed r"
    by (simp add: user_total_def repo_total_def)
  have signs: "chart_sign = [CHR 0xC3, CHR 0xB0, CHR 0xC5, CHR 0xB8, CHR 0xE2, CHR 0x80, CHR 0x9C, CHR 0xC5, CHR 0xA0]
      \<and> person_sign = [CHR 0xC3, CHR 0xB0, CHR 0xC5, CHR 0xB8, CHR 0xE2, CHR 0x80, CHR 0x98, CHR 0xC2, CHR 0xA4]
      \<and> warning_sign = [CHR 0xC3, CHR 0xA2, CHR 0xC5, CHR 0xA1, CHR 0xC2, CHR 0xA0, CHR 0xC3, CHR 0xAF, CHR 0xC2, CHR 0xB8]"
    by (simp add: chart_sign_def person_sign_def warning_sign_def)
  have ul: "user_line u
       = CHR 0x0A # person_sign @ '' '' @ name u
           @ (case user_id u of
                None \<Rightarrow> []
              | Some (IdStr s) \<Rightarrow> if s = [] then [] else '' (ID: '' @ s @ '')''
              | Some (IdNum n) \<Rightarrow> if n = 0 then [] else '' (ID: '' @ show_int n @ '')'')
           @ '':''"
    by (simp add: user_line_def line_feed_def show_id_def split: option.splits js_id.splits)
  have lines: "error_line e = warning_sign @ '' Installation '' @ err_account e @ '': '' @ error e
      \<and> total_line u
       = ''  Total: '' @ show_nat (total_commits u) @ '' commits, ''
           @ show_nat (total_prs_opened u) @ '' PRs opened, ''
           @ show_nat (total_prs_closed u) @ '' PRs closed''
      \<and> repo_line r
       = ''    - '' @ repo_name r @ '': '' @ show_nat (commits r) @ '' commits, ''
           @ show_nat (prs_opened r) @ '' PRs opened, ''
           @ show_nat (prs_closed r) @ '' PRs closed''"
    by (simp add: error_line_def total_line_def repo_line_def)
  have numerals: "show_int d = (if d < 0 then CHR ''-'' # show_nat (nat (- d)) else show_nat (nat d))
      \<and> show_nat n
       = (if n < 10 then [char_of (48 + n)] else show_nat (n div 10) @ [char_of (48 + n mod 10)])"
    using show_nat.simps[of n] by (simp add: show_int_def del: show_nat.simps)
  from users repos joined blocks labels totals signs ul lines numerals
  show ?thesis by (intro conjI) blast+
qed

theorem report_order_witness:
  "user_stats ex_acme_stats \<noteq> []
   \<and> map user_total (user_stats ex_acme_stats) = [5, 12]
   \<and> map name (user_stats ex_acme_stats) = [''ann'', ''ben'']
   \<and> fst (generateReport ex_results)
       = [CHR 0xC3, CHR 0xB0, CHR 0xC5, CHR 0xB8, CHR 0xE2, CHR 0x80, CHR 0x9C, CHR 0xC5, CHR 0xA0] @ '' Statistics for acme (Organization) - Last week:'' @ [CHR 0x0A]
           @ [CHR 0x0A] @ [CHR 0xC3, CHR 0xB0, CHR 0xC5, CHR 0xB8, CHR 0xE2, CHR 0x80, CHR 0x98, CHR 0xC2, CHR 0xA4] @ '' ben (ID: 42):'' @ [CHR 0x0A]
           @ ''  Total: 10 commits, 2 PRs opened, 0 PRs closed'' @ [CHR 0x0A]
           @ ''  Contributions by repository:'' @ [CHR 0x0A]
           @ ''    - widgets: 10 commits, 2 PRs opened, 0 PRs closed'' @ [CHR 0x0A]
           @ [CHR 0x0A] @ [CHR 0xC3, CHR 0xB0, CHR 0xC5, CHR 0xB8, CHR 0xE2, CHR 0x80, CHR 0x98, CHR 0xC2, CHR 0xA4] @ '' ann:'' @ [CHR 0x0A]
           @ ''  Total: 3 commits, 1 PRs opened, 1 PRs closed'' @ [CHR 0x0A]
           @ ''  Contributions by repository:'' @ [CHR 0x0A]
           @ ''    - widgets: 2 commits, 1 PRs opened, 1 PRs closed'' @ [CHR 0x0A]
           @ ''    - docs: 1 commits, 0 PRs opened, 0 PRs closed'' @ [CHR 0x0A]
           @ '''' @ [CHR 0x0A]
           @ [CHR 0xC3, CHR 0xA2, CHR 0xC5, CHR 0xA1, CHR 0xC2, CHR 0xA0, CHR 0xC3, CHR 0xAF, CHR 0xC2, CHR 0xB8] @ '' Installation initech: Bad credentials''
   \<and> (14 :: int) \<noteq> 7 \<and> (14 :: int) \<noteq> 30
   \<and> period_label 14 = ''14 days''"
proof -
  have a: "join_lines (concat (map installation_block ex_results))
       = [CHR 0xC3, CHR 0xB0, CHR 0xC5, CHR 0xB8, CHR 0xE2, CHR 0x80, CHR 0x9C, CHR 0xC5, CHR 0xA0] @ '' Statistics for acme (Organization) - Last week:'' @ [CHR 0x0A]
           @ [CHR 0x0A] @ [CHR 0xC3, CHR 0xB0, CHR 0xC5, CHR 0xB8, CHR 0xE2, CHR 0x80, CHR 0x98, CHR 0xC2, CHR 0xA4] @ '' ben (ID: 42):'' @ [CHR 0x0A]
           @ ''  Total: 10 commits, 2 PRs opened, 0 PRs closed'' @ [CHR 0x0A]
           @ ''  Contributions by repository:'' @ [CHR 0x0A]
           @ ''    - widgets: 10 commits, 2 PRs opened, 0 PRs closed'' @ [CHR 0x0A]
           @ [CHR 0x0A] @ [CHR 0xC3, CHR 0xB0, CHR 0xC5, CHR 0xB8, CHR 0xE2, CHR 0x80, CHR 0x98, CHR 0xC2, CHR 0xA4] @ '' ann:'' @ [CHR 0x0A]
           @ ''  Total: 3 commits, 1 PRs opened, 1 PRs closed'' @ [CHR 0x0A]
           @ ''  Contributions by repository:'' @ [CHR 0x0A]
           @ ''    - widgets: 2 commits, 1 PRs opened, 1 PRs closed'' @ [CHR 0x0A]
           @ ''    - docs: 1 commits, 0 PRs opened, 0 PRs closed'' @ [CHR 0x0A]
           @ '''' @ [CHR 0x0A]
           @ [CHR 0xC3, CHR 0xA2, CHR 0xC5, CHR 0xA1, CHR 0xC2, CHR 0xA0, CHR 0xC3, CHR 0xAF, CHR 0xC2, CHR 0xB8] @ '' Installation initech: Bad credentials''"
    by code_simp
  have b: "show_int 14 = ''14''" by code_simp
  have c: "map user_total (user_stats ex_acme_stats) = [5, 12]" by code_simp
  have d: "user_stats ex_acme_stats \<noteq> []" by (simp add: ex_acme_stats_def)
  have e: "map name (user_stats ex_acme_stats) = [''ann'', ''ben'']" by code_simp
  from report_order[of ex_results _ _ _ _ ex_acme_stats _ _ _ _ _ 14]
  have 1: "fst (generateReport ex_results) = join_lines (concat (map installation_block ex_results))"
    and 2: "14 \<noteq> (7::int) \<and> 14 \<noteq> (30::int) \<longrightarrow> period_label 14 = show_int 14 @ '' days''"
    by blast+
  from 1 2 a b c d e show ?thesis by simp
qed

subsection \<open>Pagination\<close>

lemma fetch_page_reply:
  assumes "pulls (length (requested s)) (page s) = Inr prs"
  shows "fetch_page pulls r cutoff s =
     \<lparr>page = page s + 1,
      has_more_pages = (length prs = 100
         \<and> (filter (\<lambda>pr. cutoff \<le> pr_updated_at pr) prs \<noteq> [] \<or> page s < 2)),
      total_prs = total_prs s + length (filter (\<lambda>pr. cutoff \<le> pr_updated_at pr) prs),
      stats = fold (\<lambda>pr. process_page_item pr r cutoff)
                (filter (\<lambda>pr. cutoff \<le> pr_updated_at pr) prs) (stats s),
      requested = requested s @ [page s]\<rparr>"
  using assms by (auto simp: fetch_page_def Let_def)

lemma fetch_page_error:
  assumes "pulls (length (requested s)) (page s) = Inl e"
  shows "fetch_page pulls r cutoff s =
     (if is_rate_limit e then s\<lparr>page := page s - 1, requested := requested s @ [page s]\<rparr>
      else s\<lparr>has_more_pages := False, requested := requested s @ [page s]\<rparr>)"
  using assms by (simp add: fetch_page_def)

lemma fetched_from_snoc:
  "fetched_from pulls cutoff k (ps @ [p])
     = fetched_from pulls cutoff k ps @ matching pulls cutoff (k + length ps) p"
  by (induction ps arbitrary: k) simp_all

lemma fetched_snoc:
  "fetched pulls cutoff (ps @ [p]) = fetched pulls cutoff ps @ matching pulls cutoff (length ps) p"
  by (simp add: fetched_def fetched_from_snoc)

lemma fetch_page_requested:
  "requested (fetch_page pulls r cutoff s) = requested s @ [page s]"
  by (cases "pulls (length (requested s)) (page s)")
     (simp_all add: fetch_page_reply[where pulls = pulls and s = s]
        fetch_page_error[where pulls = pulls and s = s])

lemma fetch_page_fetched:
  assumes "stats s = fold (\<lambda>pr. process_page_item pr r cutoff) (fetched pulls cutoff (requested s)) us"
    and "total_prs s = length (fetched pulls cutoff (requested s))"
  shows "stats (fetch_page pulls r cutoff s)
           = fold (\<lambda>pr. process_page_item pr r cutoff)
               (fetched pulls cutoff (requested (fetch_page pulls r cutoff s))) us
       \<and> total_prs (fetch_page pulls r cutoff s)
           = length (fetched pulls cutoff (requested (fetch_page pulls r cutoff s)))"
proof (cases "pulls (length (requested s)) (page s)")
  case (Inl e)
  then have m: "matching pulls cutoff (length (requested s)) (page s) = []"
    by (simp add: matching_def)
  show ?thesis
    unfolding fetch_page_requested fetched_snoc m
    using assms by (simp add: fetch_page_error[where pulls = pulls and s = s, OF Inl])
next
  case (Inr prs)
  then have m: "matching pulls cutoff (length (requested s)) (page s)
      = filter (\<lambda>pr. cutoff \<le> pr_updated_at pr) prs"
    by (simp add: matching_def)
  show ?thesis
    unfolding fetch_page_requested fetched_snoc m
    using assms by (simp add: fetch_page_reply[where pulls = pulls and s = s, OF Inr])
qed

lemma fetch_page_consecutive:
  assumes "\<And>n p. \<exists>prs. pulls n p = Inr prs"
    and "requested s = [1..int (length (requested s))]"
    and "page s = int (length (requested s)) + 1"
  shows "requested (fetch_page pulls r cutoff s)
           = [1..int (length (requested (fetch_page pulls r cutoff s)))]
       \<and> page (fetch_page pulls r cutoff s)
           = int (length (requested (fetch_page pulls r cutoff s))) + 1"
proof -
  define n where "n = length (requested s)"
  obtain prs where r: "pulls (length (requested s)) (page s) = Inr prs"
    using assms(1) by blast
  have a: "requested s = [1..int n]" and b: "page s = int n + 1"
    using assms(2,3) unfolding n_def by simp_all
  have c: "[1..int (Suc n)] = [1..int n] @ [int n + 1]"
    using upto_rec2[of 1 "int (Suc n)"] by (simp add: add.commute)
  have d: "requested (fetch_page pulls r cutoff s) = [1..int n] @ [int n + 1]"
    unfolding fetch_page_requested b using a by simp
  have len: "length (requested (fetch_page pulls r cutoff s)) = Suc n"
    unfolding fetch_page_requested n_def by simp
  have pg: "page (fetch_page pulls r cutoff s) = int (Suc n) + 1"
    using b by (simp add: fetch_page_reply[where pulls = pulls and s = s, OF r])
  show ?thesis unfolding len pg using c d by simp
qed

lemma fetchPRs_fetched:
  assumes "fetchPRsWithPagination pulls repo cutoff us = Some s'"
  shows "stats s' = fold (\<lambda>pr. process_page_item pr (repository_name repo) cutoff)
                      (fetched pulls cutoff (requested s')) us
       \<and> total_prs s' = length (fetched pulls cutoff (requested s'))"
  using pagination_loop_invariant[OF assms[unfolded fetchPRsWithPagination_def],
      of "\<lambda>t. stats t = fold (\<lambda>pr. process_page_item pr (repository_name repo) cutoff)
                      (fetched pulls cutoff (requested t)) us
       \<and> total_prs t = length (fetched pulls cutoff (requested t))"]
  by (simp add: fetch_page_fetched fetched_def)

lemma fetchPRs_consecutive:
  assumes "fetchPRsWithPagination pulls repo cutoff us = Some s'"
    and "\<And>n p. \<exists>prs. pulls n p = Inr prs"
  shows "requested s' = [1..int (length (requested s'))]"
  using pagination_loop_invariant[OF assms(1)[unfolded fetchPRsWithPagination_def],
      of "\<lambda>t. requested t = [1..int (length (requested t))]
            \<and> page t = int (length (requested t)) + 1"]
    fetch_page_consecutive[OF assms(2)]
  by simp

lemma fetchPRs_requests:
  assumes "fetchPRsWithPagination pulls repo cutoff us = Some s'"
  shows "requested s' \<noteq> []"
proof -
  have "(has_more_pages s' \<or> requested s' \<noteq> []) \<and> \<not> has_more_pages s'"
    by (rule pagination_loop_invariant[OF assms[unfolded fetchPRsWithPagination_def]])
       (simp_all add: fetch_page_requested)
  then show ?thesis by blast
qed

text \<open>
  A rate-limit error leaves \<^verbatim>\<open>page++\<close> undone and then runs \<^verbatim>\<open>page--\<close>: the
  next request asks for the page before the one that failed.
\<close>

lemma rate_limit_steps_back:
  assumes "pulls (length (requested s)) (page s) = Inl e" and "is_rate_limit e"
  shows "fetch_page pulls r cutoff s = s\<lparr>page := page s - 1, requested := requested s @ [page s]\<rparr>"
    and "requested (fetch_page pulls r cutoff (fetch_page pulls r cutoff s))
           = requested s @ [page s, page s - 1]"
  using assms
  by (simp_all add: fetch_page_error[where pulls = pulls and s = s] fetch_page_requested)

text \<open>
  C1. The claim is that after a rate-limit error on page \<open>p\<close> the collector asks for
  page \<open>p\<close> again. The code does not: on an endpoint whose second answer, to the request
  for page 2, is a rate-limit error, the requests are for the pages 1, 2, 1, 2. The items
  of page 2 are read in the end, but the hundred items of page 1 are processed twice: the
  run counts 201 matching pull requests and 201 opened by their author, where the two
  pages hold 101 pull requests.
\<close>

theorem rate_limit_retry_run:
  "ex_flaky 1 2 = Inl rate_limit_error
   \<and> is_rate_limit rate_limit_error
   \<and> map_option (\<lambda>s. (requested s, total_prs s, opened_total (stats s) ''dora''))
        (fetchPRsWithPagination ex_flaky ex_repo ex_cutoff []) = Some ([1, 2, 1, 2], 201, 201)
   \<and> length (remdups (map number (ex_page 2 1200 1500 @ [ex_pr 1 ''dora'' 1100 None 1100]))) = 101"
  by code_simp

text \<open>
  C3, as stated, fails: a page with no matching item ends the pagination already when it
  is page 2, with page 1 the only page fetched before it. Here page 2 is full (100
  items) and holds no item updated at or after the cutoff; page 3 is never requested.
\<close>

theorem zero_match_page_two_stops:
  "ex_paged 1 2 = Inr (ex_page 2 200 900)
   \<and> length (ex_page 2 200 900) = 100
   \<and> filter (\<lambda>pr. ex_cutoff \<le> pr_updated_at pr) (ex_page 2 200 900) = []
   \<and> map_option requested (fetchPRsWithPagination ex_paged ex_repo ex_cutoff []) = Some [1, 2]"
  by code_simp

text \<open>
  C3, amended. After a page has been fetched, the pagination goes on exactly when the
  page was full (100 items) and either held a matching item or was fetched with the page
  counter below 2: a page with no matching item ends the pagination whenever it is not
  the first page, and a full first page with no matching item does not.
\<close>

theorem zero_match_stop:
  assumes "pulls (length (requested s)) (page s) = Inr prs"
  shows "(has_more_pages (fetch_page pulls r cutoff s) \<longleftrightarrow>
            length prs = 100
            \<and> (filter (\<lambda>pr. cutoff \<le> pr_updated_at pr) prs \<noteq> [] \<or> page s < 2))
       \<and> page (fetch_page pulls r cutoff s) = page s + 1"
  by (simp add: fetch_page_reply[where pulls = pulls and s = s, OF assms])

theorem zero_match_stop_witness:
  "ex_stale_first 0 1 = Inr (ex_page 2 200 900)
   \<and> has_more_pages (fetch_page ex_stale_first ''widgets'' ex_cutoff
        \<lparr>page = 1, has_more_pages = True, total_prs = 0, stats = [], requested = []\<rparr>)
   \<and> \<not> has_more_pages (fetch_page ex_paged ''widgets'' ex_cutoff
        \<lparr>page = 2, has_more_pages = True, total_prs = 100, stats = [], requested = [1]\<rparr>)"
proof -
  have a: "ex_stale_first 0 1 = Inr (ex_page 2 200 900)" by (simp add: ex_stale_first_def)
  have b: "ex_paged 1 2 = Inr (ex_page 2 200 900)" by (simp add: ex_paged_def)
  have c: "length (ex_page 2 200 900) = 100" by (simp add: ex_page_def)
  have d: "filter (\<lambda>pr. ex_cutoff \<le> pr_updated_at pr) (ex_page 2 200 900) = []"
    by (simp add: ex_page_def ex_pr_def ex_cutoff_def filter_empty_conv)
  from zero_match_stop[of ex_stale_first
         "\<lparr>page = 1, has_more_pages = True, total_prs = 0, stats = [], requested = []\<rparr>"
         "ex_page 2 200 900" "''widgets''" ex_cutoff]
       zero_match_stop[of ex_paged
         "\<lparr>page = 2, has_more_pages = True, total_prs = 100, stats = [], requested = [1]\<rparr>"
         "ex_page 2 200 900" "''widgets''" ex_cutoff]
       a b c d
  show ?thesis by simp
qed

subsection \<open>Choice of the path\<close>

text \<open>
  The fallback runs exactly when the search throws or reports a total count of zero:
  otherwise the result is that of the search path alone and the list endpoint is never
  asked, and a run of the fallback always asks it at least once. After a search that
  threw, or that returned a count of zero with no items, the result is that of the
  fallback on the accumulators as they were. What the fallback counts is the fold of the
  per item step over the matching items of the answers it received, each taken once per
  request; when no request fails the requests are for the pages 1, 2, ... in turn, each
  page once.
\<close>

lemma path_choice:
  "(\<forall>found. searched = Inr found \<and> total_count found \<noteq> 0 \<longrightarrow>
       processRepositoryPullRequests searched pulls repo cutoff us
         = Some (processPullRequestsFromSearch (items found) repo cutoff us, []))
   \<and> (\<forall>us' reqs. processRepositoryPullRequests searched pulls repo cutoff us = Some (us', reqs) \<longrightarrow>
         (reqs \<noteq> [] \<longleftrightarrow>
            (\<exists>e. searched = Inl e) \<or> (\<exists>found. searched = Inr found \<and> total_count found = 0)))
   \<and> ((\<exists>e. searched = Inl e) \<or> searched = Inr \<lparr>total_count = 0, items = []\<rparr> \<longrightarrow>
         processRepositoryPullRequests searched pulls repo cutoff us
           = map_option (\<lambda>s. (stats s, requested s)) (fetchPRsWithPagination pulls repo cutoff us))
   \<and> (\<forall>s'. fetchPRsWithPagination pulls repo cutoff us = Some s' \<longrightarrow>
         stats s' = fold (\<lambda>pr. process_page_item pr (repository_name repo) cutoff)
                      (fetched pulls cutoff (requested s')) us
       \<and> total_prs s' = length (fetched pulls cutoff (requested s'))
       \<and> ((\<forall>n p. \<exists>prs. pulls n p = Inr prs) \<longrightarrow>
              requested s' = [1..int (length (requested s'))]))"
proof -
  have primary: "\<forall>found. searched = Inr found \<and> total_count found \<noteq> 0 \<longrightarrow>
       processRepositoryPullRequests searched pulls repo cutoff us
         = Some (processPullRequestsFromSearch (items found) repo cutoff us, [])"
    by (simp add: processRepositoryPullRequests_def)
  have iff: "reqs \<noteq> [] \<longleftrightarrow>
            (\<exists>e. searched = Inl e) \<or> (\<exists>found. searched = Inr found \<and> total_count found = 0)"
    if run: "processRepositoryPullRequests searched pulls repo cutoff us = Some (us', reqs)"
    for us' reqs
  proof (cases searched)
    case (Inl e)
    with run obtain s' where f: "fetchPRsWithPagination pulls repo cutoff us = Some s'"
      and r: "reqs = requested s'"
      by (auto simp: processRepositoryPullRequests_def)
    from f have "requested s' \<noteq> []" by (rule fetchPRs_requests)
    with Inl r show ?thesis by simp
  next
    case (Inr found)
    show ?thesis
    proof (cases "total_count found = 0")
      case True
      with run Inr obtain s' where
        f: "fetchPRsWithPagination pulls repo cutoff
           (processPullRequestsFromSearch (items found) repo cutoff us) = Some s'"
        and r: "reqs = requested s'"
        by (auto simp: processRepositoryPullRequests_def)
      from f have "requested s' \<noteq> []" by (rule fetchPRs_requests)
      with Inr True r show ?thesis by simp
    next
      case False
      with run Inr show ?thesis by (simp add: processRepositoryPullRequests_def)
    qed
  qed
  have fallback: "(\<exists>e. searched = Inl e) \<or> searched = Inr \<lparr>total_count = 0, items = []\<rparr> \<longrightarrow>
         processRepositoryPullRequests searched pulls repo cutoff us
           = map_option (\<lambda>s. (stats s, requested s)) (fetchPRsWithPagination pulls repo cutoff us)"
    by (auto simp: processRepositoryPullRequests_def processPullRequestsFromSearch_def)
  have once: "\<forall>s'. fetchPRsWithPagination pulls repo cutoff us = Some s' \<longrightarrow>
         stats s' = fold (\<lambda>pr. process_page_item pr (repository_name repo) cutoff)
                      (fetched pulls cutoff (requested s')) us
       \<and> total_prs s' = length (fetched pulls cutoff (requested s'))
       \<and> ((\<forall>n p. \<exists>prs. pulls n p = Inr prs) \<longrightarrow>
              requested s' = [1..int (length (requested s'))])"
  proof (intro allI impI conjI)
    fix s' assume f: "fetchPRsWithPagination pulls repo cutoff us = Some s'"
    from fetchPRs_fetched[OF f]
    show "stats s' = fold (\<lambda>pr. process_page_item pr (repository_name repo) cutoff)
                      (fetched pulls cutoff (requested s')) us"
      and "total_prs s' = length (fetched pulls cutoff (requested s'))"
      by simp_all
    assume "\<forall>n p. \<exists>prs. pulls n p = Inr prs"
    then show "requested s' = [1..int (length (requested s'))]"
      using fetchPRs_consecutive[OF f] by blast
  qed
  from iff have iff': "\<forall>us' reqs. processRepositoryPullRequests searched pulls repo cutoff us = Some (us', reqs) \<longrightarrow>
         (reqs \<noteq> [] \<longleftrightarrow>
            (\<exists>e. searched = Inl e) \<or> (\<exists>found. searched = Inr found \<and> total_count found = 0))"
    by blast
  from primary iff' fallback once show ?thesis by (intro conjI)
qed

text \<open>
  C7. The first half of the claim is \<open>path_choice\<close>. The second half is that after a
  search with no result every pull request the fallback matches is counted exactly once.
  The code does not do this when a request of the fallback fails with a rate-limit error:
  the search of the repository returns a count of zero and no items, the list endpoint
  answers the second request, for page 2, with that error, and the fallback then asks for
  the pages 1, 2, 1, 2. The two pages hold 101 pull requests of \<^verbatim>\<open>dora\<close>, all
  matching and all created in the period; the accumulators count 201 opened, each pull
  request of page 1 twice. This is the step back of the page counter reported under C1.
\<close>

theorem zero_result_fallback_counts_twice:
  "search_response ex_flaky_feed = Inr \<lparr>total_count = 0, items = []\<rparr>
   \<and> pulls_response ex_flaky_feed 1 2 = Inl rate_limit_error
   \<and> processRepositoryPullRequests (search_response ex_flaky_feed) (pulls_response ex_flaky_feed)
         ex_repo ex_cutoff []
     = Some ([(''dora'',
               \<lparr>acc_user_id = None, commits_by_repo = [],
                pull_requests_by_repo = [(''widgets'', \<lparr>opened = 201, closed = 0\<rparr>)],
                acc_total_commits = 0, acc_total_prs_opened = 201,
                acc_total_prs_closed = 0\<rparr>)],
             [1, 2, 1, 2])
   \<and> collectUserStats (\<lambda>_. ex_flaky_feed) [ex_repo] ex_cutoff
     = Some [(''dora'',
              \<lparr>acc_user_id = None, commits_by_repo = [],
               pull_requests_by_repo = [(''widgets'', \<lparr>opened = 201, closed = 0\<rparr>)],
               acc_total_commits = 0, acc_total_prs_opened = 201,
               acc_total_prs_closed = 0\<rparr>)]
   \<and> filter (\<lambda>pr. ex_cutoff \<le> pr_updated_at pr \<and> ex_cutoff \<le> created_at pr)
         (ex_page 2 1200 1500 @ [ex_pr 1 ''dora'' 1100 None 1100])
     = ex_page 2 1200 1500 @ [ex_pr 1 ''dora'' 1100 None 1100]
   \<and> length (remdups (map number (ex_page 2 1200 1500 @ [ex_pr 1 ''dora'' 1100 None 1100]))) = 101"
proof -
  have found: "search_response ex_flaky_feed = Inr \<lparr>total_count = 0, items = []\<rparr>"
    and branches: "branches_response ex_flaky_feed = Inr []"
    by (simp_all add: ex_flaky_feed_def)
  have failing: "pulls_response ex_flaky_feed 1 2 = Inl rate_limit_error"
    by code_simp
  have run: "processRepositoryPullRequests (search_response ex_flaky_feed)
         (pulls_response ex_flaky_feed) ex_repo ex_cutoff []
     = Some ([(''dora'',
               \<lparr>acc_user_id = None, commits_by_repo = [],
                pull_requests_by_repo = [(''widgets'', \<lparr>opened = 201, closed = 0\<rparr>)],
                acc_total_commits = 0, acc_total_prs_opened = 201,
                acc_total_prs_closed = 0\<rparr>)],
             [1, 2, 1, 2])"
    by code_simp
  have pass: "collectUserStats (\<lambda>_. ex_flaky_feed) [ex_repo] ex_cutoff
     = Some [(''dora'',
              \<lparr>acc_user_id = None, commits_by_repo = [],
               pull_requests_by_repo = [(''widgets'', \<lparr>opened = 201, closed = 0\<rparr>)],
               acc_total_commits = 0, acc_total_prs_opened = 201,
               acc_total_prs_closed = 0\<rparr>)]"
    by (simp add: collectUserStats_def processRepositoryBranches_def branches run)
  have matched: "filter (\<lambda>pr. ex_cutoff \<le> pr_updated_at pr \<and> ex_cutoff \<le> created_at pr)
         (ex_page 2 1200 1500 @ [ex_pr 1 ''dora'' 1100 None 1100])
     = ex_page 2 1200 1500 @ [ex_pr 1 ''dora'' 1100 None 1100]"
    by code_simp
  have numbers:
    "length (remdups (map number (ex_page 2 1200 1500 @ [ex_pr 1 ''dora'' 1100 None 1100]))) = 101"
    by code_simp
  from found failing run pass matched numbers show ?thesis by (intro conjI)
qed

subsection \<open>Names that every object inherits\<close>

text \<open>
  The accumulators and their two dictionaries are plain objects, read with
  \<^verbatim>\<open>obj[name]\<close> and tested for truthiness. A repository name or an author
  identity that names a property of \<^verbatim>\<open>Object.prototype\<close> is therefore taken for
  an entry that exists. The lemmas below hold of every pass; the properties after them
  evaluate the collection on such names.

  No own key of a dictionary \<^verbatim>\<open>pull_requests_by_repo\<close> names an inherited
  property, and a property of accumulators that every step of a repository keeps holds of
  all accumulators of a pass.
\<close>

lemma list_all_update:
  "list_all P al \<Longrightarrow> P (k, v) \<Longrightarrow> list_all P (AList.update k v al)"
  by (induction al) auto

lemma all_accumulators_lookup:
  "all_accumulators Q us \<Longrightarrow> map_of us a = Some acc \<Longrightarrow> Q acc"
  by (induction us) (auto simp: all_accumulators_def split: if_splits)

lemma all_accumulators_update:
  "all_accumulators Q us \<Longrightarrow> Q acc \<Longrightarrow> all_accumulators Q (AList.update a acc us)"
  by (simp add: all_accumulators_def list_all_update)

lemma keep_author_entry:
  assumes "steps_keep Q r" and "all_accumulators Q us" and "author_entry us a i = Some acc"
  shows "Q acc"
proof (cases "map_of us a")
  case None
  with assms(3) have "acc = new_author i"
    by (simp add: author_entry_def split: if_splits)
  with assms(1) show ?thesis by (simp add: steps_keep_def)
next
  case (Some acc0)
  with assms(2) have q: "Q acc0" by (rule all_accumulators_lookup)
  with assms(1) have "Q (acc0\<lparr>acc_user_id := i\<rparr>)" unfolding steps_keep_def by blast
  with Some q assms(3) show ?thesis by (auto simp: author_entry_def split: if_splits)
qed

lemma processPullRequest_count_pr:
  "processPullRequest pr r cutoff us =
     (case author_entry us (pr_author_login pr) (pr_user_id pr) of
        None \<Rightarrow> Inl TypeError
      | Some acc \<Rightarrow>
          Inr (AList.update (pr_author_login pr)
                 (count_pr (created_at pr \<ge> cutoff) (closed_in_period pr cutoff) r acc) us))"
  by (simp add: processPullRequest_def count_pr_def closed_in_period_def Let_def
           split: option.splits)

lemma process_page_item_eq:
  "process_page_item pr r cutoff us =
     (case processPullRequest pr r cutoff us of Inl e \<Rightarrow> us | Inr us' \<Rightarrow> us')"
  by (simp add: process_page_item_def processPullRequest_def pr_author_login_def pr_user_id_def
        Let_def split: option.splits)

lemma keep_processPullRequest:
  assumes "steps_keep Q r" and "all_accumulators Q us"
    and "processPullRequest pr r cutoff us = Inr us'"
  shows "all_accumulators Q us'"
proof -
  from assms(3) obtain acc where
    e: "author_entry us (pr_author_login pr) (pr_user_id pr) = Some acc"
    and u: "us' = AList.update (pr_author_login pr)
                 (count_pr (created_at pr \<ge> cutoff) (closed_in_period pr cutoff) r acc) us"
    by (auto simp: processPullRequest_count_pr split: option.splits)
  from keep_author_entry[OF assms(1,2) e] have "Q acc" .
  with assms(1) have "Q (count_pr (created_at pr \<ge> cutoff) (closed_in_period pr cutoff) r acc)"
    unfolding steps_keep_def by blast
  with assms(2) show ?thesis unfolding u by (rule all_accumulators_update)
qed

lemma keep_process_page_item:
  assumes "steps_keep Q r" and "all_accumulators Q us"
  shows "all_accumulators Q (process_page_item pr r cutoff us)"
  using assms keep_processPullRequest[OF assms, of pr cutoff]
  by (cases "processPullRequest pr r cutoff us") (simp_all add: process_page_item_eq)

lemma keep_process_search_item:
  assumes "steps_keep Q r" and "all_accumulators Q us"
  shows "all_accumulators Q (process_search_item ow r cutoff pr us)"
  using assms keep_processPullRequest[OF assms, of pr cutoff]
  by (cases "processPullRequest pr r cutoff us")
     (simp_all add: process_search_item_def split: option.splits prod.splits)

lemma keep_processPullRequestsFromSearch:
  assumes "steps_keep Q (repository_name repo)" and "all_accumulators Q us"
  shows "all_accumulators Q (processPullRequestsFromSearch prs repo cutoff us)"
  using assms(2) unfolding processPullRequestsFromSearch_def
  by (induction prs arbitrary: us) (simp_all add: keep_process_search_item[OF assms(1)])

lemma keep_process_commit:
  assumes "steps_keep Q r" and "all_accumulators Q (snd st)"
  shows "all_accumulators Q (snd (snd (process_commit r c st)))"
proof (cases st)
  case (Pair seen us)
  show ?thesis
  proof (cases "oid c \<in> seen \<or> author c = None")
    case True
    with Pair assms(2) show ?thesis by (auto simp: process_commit_def)
  next
    case False
    then obtain a where a: "author c = Some a" by auto
    show ?thesis
    proof (cases "author_entry us (commit_author_login a) (commit_user_id a)")
      case None
      with Pair False a assms(2) show ?thesis by (simp add: process_commit_def)
    next
      case (Some acc)
      from assms(2) Pair have "all_accumulators Q us" by simp
      from keep_author_entry[OF assms(1) this Some] have "Q acc" .
      with assms(1) have "Q (count_commit r acc)" unfolding steps_keep_def by blast
      with \<open>all_accumulators Q us\<close>
      have "all_accumulators Q (AList.update (commit_author_login a) (count_commit r acc) us)"
        by (rule all_accumulators_update)
      with Pair False a Some show ?thesis by (simp add: process_commit_def)
    qed
  qed
qed

lemma keep_commits_loop:
  assumes "steps_keep Q r" and "all_accumulators Q (snd st)"
  shows "all_accumulators Q (snd (snd (commits_loop r cs st)))"
  using assms(2)
proof (induction cs arbitrary: st)
  case Nil
  then show ?case by simp
next
  case (Cons c cs)
  obtain e st' where p: "process_commit r c st = (e, st')"
    by (cases "process_commit r c st") auto
  have "all_accumulators Q (snd st')"
    using keep_process_commit[OF assms(1) Cons.prems, of c] p by simp
  then show ?case using p Cons.IH[of st'] by (cases e) simp_all
qed

lemma keep_processBranchCommits:
  assumes "steps_keep Q r" and "all_accumulators Q (snd st)"
  shows "all_accumulators Q (snd (snd (processBranchCommits r b st)))"
  using assms by (simp add: processBranchCommits_def keep_commits_loop split: sum.splits)

lemma keep_branches_loop:
  assumes "steps_keep Q r" and "all_accumulators Q (snd st)"
  shows "all_accumulators Q (snd (snd (branches_loop r bs st)))"
  using assms(2)
proof (induction bs arbitrary: st)
  case Nil
  then show ?case by simp
next
  case (Cons b bs)
  obtain e st' where p: "processBranchCommits r b st = (e, st')"
    by (cases "processBranchCommits r b st") auto
  have "all_accumulators Q (snd st')"
    using keep_processBranchCommits[OF assms(1) Cons.prems, of b] p by simp
  then show ?case using p Cons.IH[of st'] by (cases e) simp_all
qed

lemma keep_processRepositoryBranches:
  assumes "steps_keep Q r" and "all_accumulators Q (snd st)"
  shows "all_accumulators Q (snd (snd (processRepositoryBranches r resp st)))"
  using assms by (simp add: processRepositoryBranches_def keep_branches_loop split: sum.splits)

lemma keep_fetch_page:
  assumes "steps_keep Q r" and "all_accumulators Q (stats s)"
  shows "all_accumulators Q (stats (fetch_page pulls r cutoff s))"
proof -
  have "all_accumulators Q (fold (\<lambda>pr us. process_page_item pr r cutoff us) prs us)"
    if "all_accumulators Q us" for prs us
    using that by (induction prs arbitrary: us) (simp_all add: keep_process_page_item[OF assms(1)])
  with assms(2) show ?thesis
    by (simp add: fetch_page_def Let_def split: sum.splits)
qed

lemma keep_fetchPRsWithPagination:
  assumes "steps_keep Q (repository_name repo)" and "all_accumulators Q us"
    and "fetchPRsWithPagination pulls repo cutoff us = Some s'"
  shows "all_accumulators Q (stats s')"
  using pagination_loop_invariant[OF assms(3)[unfolded fetchPRsWithPagination_def],
      of "\<lambda>t. all_accumulators Q (stats t)"] assms(2)
  by (simp add: keep_fetch_page[OF assms(1)])

lemma keep_processRepositoryPullRequests:
  assumes "steps_keep Q (repository_name repo)" and "all_accumulators Q us"
    and "processRepositoryPullRequests sr pulls repo cutoff us = Some (us', reqs)"
  shows "all_accumulators Q us'"
proof (cases sr)
  case (Inl e)
  with assms(3) obtain s' where "fetchPRsWithPagination pulls repo cutoff us = Some s'"
    and "us' = stats s'"
    by (auto simp: processRepositoryPullRequests_def)
  with keep_fetchPRsWithPagination[OF assms(1,2)] show ?thesis by simp
next
  case (Inr found)
  let ?us1 = "processPullRequestsFromSearch (items found) repo cutoff us"
  have k: "all_accumulators Q ?us1"
    using assms(1,2) by (rule keep_processPullRequestsFromSearch)
  show ?thesis
  proof (cases "total_count found = 0")
    case True
    with assms(3) Inr obtain s' where "fetchPRsWithPagination pulls repo cutoff ?us1 = Some s'"
      and "us' = stats s'"
      by (auto simp: processRepositoryPullRequests_def)
    with keep_fetchPRsWithPagination[OF assms(1) k] show ?thesis by simp
  next
    case False
    with assms(3) Inr k show ?thesis by (simp add: processRepositoryPullRequests_def)
  qed
qed

lemma keep_collect_loop:
  assumes "\<forall>repo \<in> set repos. steps_keep Q (repository_name repo)"
    and "all_accumulators Q us"
    and "collect_loop api repos cutoff us = Some us'"
  shows "all_accumulators Q us'"
  using assms
proof (induction repos arbitrary: us)
  case Nil
  then show ?case by simp
next
  case (Cons repo repos)
  have keep: "steps_keep Q (repository_name repo)" using Cons.prems(1) by simp
  have rest: "\<forall>repo \<in> set repos. steps_keep Q (repository_name repo)" using Cons.prems(1) by simp
  obtain e seen us1 where b:
    "processRepositoryBranches (repository_name repo) (branches_response (api repo)) ({}, us)
       = (e, seen, us1)"
    by (metis prod_cases3)
  have k1: "all_accumulators Q us1"
    using keep_processRepositoryBranches[OF keep, of "({}, us)" "branches_response (api repo)"]
      Cons.prems(2) b by simp
  show ?case
  proof (cases e)
    case (Some err)
    with Cons.prems(3) b have "collect_loop api repos cutoff us1 = Some us'" by simp
    with Cons.IH[OF rest k1] show ?thesis by blast
  next
    case None
    with Cons.prems(3) b obtain us2 reqs where
      p: "processRepositoryPullRequests (search_response (api repo)) (pulls_response (api repo))
            repo cutoff us1 = Some (us2, reqs)"
      and l: "collect_loop api repos cutoff us2 = Some us'"
      by (auto split: option.splits)
    from keep_processRepositoryPullRequests[OF keep k1 p] have "all_accumulators Q us2" .
    with Cons.IH[OF rest _ l] show ?thesis by blast
  qed
qed


lemma map_of_list_all:
  "list_all P al \<Longrightarrow> map_of al k = Some v \<Longrightarrow> P (k, v)"
  by (induction al) (auto split: if_splits)

lemma ordinary_count_opened: "ordinary_pr_keys acc \<Longrightarrow> ordinary_pr_keys (count_opened r acc)"
  by (auto simp: ordinary_pr_keys_def count_opened_def split: option.splits
           dest: map_of_list_all intro!: list_all_update)

lemma ordinary_count_closed: "ordinary_pr_keys acc \<Longrightarrow> ordinary_pr_keys (count_closed r acc)"
  by (auto simp: ordinary_pr_keys_def count_closed_def split: option.splits
           dest: map_of_list_all intro!: list_all_update)

lemma ordinary_pr_entry: "ordinary_pr_keys acc \<Longrightarrow> ordinary_pr_keys (pr_entry r acc)"
  by (auto simp: ordinary_pr_keys_def pr_entry_def split: option.splits
           intro!: list_all_update)

lemma steps_keep_ordinary_pr_keys: "steps_keep ordinary_pr_keys r"
proof -
  have "ordinary_pr_keys (new_author i)" for i
    by (simp add: ordinary_pr_keys_def new_author_def)
  moreover have "ordinary_pr_keys (acc\<lparr>acc_user_id := i\<rparr>)" if "ordinary_pr_keys acc" for acc i
    using that by (simp add: ordinary_pr_keys_def)
  moreover have "ordinary_pr_keys (count_commit r acc)" if "ordinary_pr_keys acc" for acc
    using that by (simp add: ordinary_pr_keys_def count_commit_def Let_def)
  moreover have "ordinary_pr_keys (count_pr b1 b2 r acc)" if "ordinary_pr_keys acc" for acc b1 b2
    using that
    by (simp add: count_pr_def Let_def ordinary_pr_entry ordinary_count_opened ordinary_count_closed)
  ultimately show ?thesis unfolding steps_keep_def by blast
qed

lemma collected_keys:
  assumes "collectUserStats api repos cutoff = Some us"
  shows "all_accumulators ordinary_pr_keys us"
proof -
  have "\<forall>repo \<in> set repos. steps_keep ordinary_pr_keys (repository_name repo)"
    by (simp add: steps_keep_ordinary_pr_keys)
  moreover have "all_accumulators ordinary_pr_keys []" by (simp add: all_accumulators_def)
  ultimately show ?thesis
    using assms unfolding collectUserStats_def by (rule keep_collect_loop)
qed

text \<open>
  The sum property of the accumulators holds at the end of every pass over repositories
  none of which is named like an inherited property (an author with such an identity
  gets no accumulator).
\<close>

lemma sum_update_absent:
  "map_of al k = None \<Longrightarrow>
     sum_list (map (\<lambda>kv. g (snd kv)) (AList.update k v al)) = sum_list (map (\<lambda>kv. g (snd kv)) al) + (g v :: nat)"
  by (induction al) (auto split: if_splits)

lemma sum_update_present:
  "map_of al k = Some w \<Longrightarrow>
     sum_list (map (\<lambda>kv. g (snd kv)) (AList.update k v al)) + g w
       = sum_list (map (\<lambda>kv. g (snd kv)) al) + (g v :: nat)"
  by (induction al) (auto split: if_splits)

lemma consistent_count_commit:
  assumes "\<not> inherited r" and "acc_consistent acc"
  shows "acc_consistent (count_commit r acc)"
proof (cases "map_of (commits_by_repo acc) r")
  case None
  let ?init = "AList.update r (Num 0) (commits_by_repo acc)"
  have m: "map_of ?init r = Some (Num 0)" by (simp add: update_conv')
  have c: "count_commit r acc
      = acc\<lparr>commits_by_repo := AList.update r (Num 1) ?init,
            acc_total_commits := acc_total_commits acc + 1\<rparr>"
    using None assms(1) m by (simp add: count_commit_def Let_def)
  have "list_all (\<lambda>kv. snd kv \<noteq> NaN) (AList.update r (Num 1) ?init)"
    using assms(2) by (auto simp: acc_consistent_def intro!: list_all_update)
  moreover have "sum_list (map (\<lambda>kv. count_value (snd kv)) (AList.update r (Num 1) ?init))
      = sum_list (map (\<lambda>kv. count_value (snd kv)) (commits_by_repo acc)) + 1"
    using sum_update_present[OF m, of count_value "Num 1"]
      sum_update_absent[OF None, of count_value "Num 0"]
    by (simp add: count_value_def)
  ultimately show ?thesis using assms(2) unfolding c by (simp add: acc_consistent_def)
next
  case (Some w)
  from assms(2) Some have "w \<noteq> NaN"
    by (auto simp: acc_consistent_def dest: map_of_list_all)
  then obtain n where w: "w = Num n" by (cases w) auto
  let ?init = "if n = 0 then AList.update r (Num 0) (commits_by_repo acc) else commits_by_repo acc"
  have m: "map_of ?init r = Some (Num n)" using Some w by (simp add: update_conv')
  have c: "count_commit r acc
      = acc\<lparr>commits_by_repo := AList.update r (Num (n + 1)) ?init,
            acc_total_commits := acc_total_commits acc + 1\<rparr>"
    using Some w m by (simp add: count_commit_def Let_def)
  have s0: "sum_list (map (\<lambda>kv. count_value (snd kv)) ?init)
      = sum_list (map (\<lambda>kv. count_value (snd kv)) (commits_by_repo acc))"
    using sum_update_present[OF Some, of count_value "Num 0"] w
    by (simp add: count_value_def)
  have "list_all (\<lambda>kv. snd kv \<noteq> NaN) (AList.update r (Num (n + 1)) ?init)"
    using assms(2) by (auto simp: acc_consistent_def intro!: list_all_update)
  moreover have "sum_list (map (\<lambda>kv. count_value (snd kv)) (AList.update r (Num (n + 1)) ?init))
      = sum_list (map (\<lambda>kv. count_value (snd kv)) (commits_by_repo acc)) + 1"
    using sum_update_present[OF m, of count_value "Num (n + 1)"] s0
    by (simp add: count_value_def)
  ultimately show ?thesis using assms(2) unfolding c by (simp add: acc_consistent_def)
qed

lemma consistent_pr_entry:
  assumes "\<not> inherited r" and "acc_consistent acc"
  shows "acc_consistent (pr_entry r acc) \<and> map_of (pull_requests_by_repo (pr_entry r acc)) r \<noteq> None"
proof (cases "map_of (pull_requests_by_repo acc) r")
  case None
  with assms show ?thesis
    by (simp add: pr_entry_def acc_consistent_def sum_update_absent update_conv')
next
  case (Some c)
  with assms show ?thesis by (simp add: pr_entry_def)
qed

lemma consistent_count_opened:
  assumes "map_of (pull_requests_by_repo acc) r \<noteq> None" and "acc_consistent acc"
  shows "acc_consistent (count_opened r acc) \<and> map_of (pull_requests_by_repo (count_opened r acc)) r \<noteq> None"
proof -
  from assms(1) obtain c where c: "map_of (pull_requests_by_repo acc) r = Some c" by auto
  from sum_update_present[OF c, of opened "c\<lparr>opened := opened c + 1\<rparr>"]
       sum_update_present[OF c, of closed "c\<lparr>opened := opened c + 1\<rparr>"]
  show ?thesis using assms(2) c
    by (simp add: count_opened_def acc_consistent_def update_conv')
qed

lemma consistent_count_closed:
  assumes "map_of (pull_requests_by_repo acc) r \<noteq> None" and "acc_consistent acc"
  shows "acc_consistent (count_closed r acc)"
proof -
  from assms(1) obtain c where c: "map_of (pull_requests_by_repo acc) r = Some c" by auto
  from sum_update_present[OF c, of opened "c\<lparr>closed := closed c + 1\<rparr>"]
       sum_update_present[OF c, of closed "c\<lparr>closed := closed c + 1\<rparr>"]
  show ?thesis using assms(2) c
    by (simp add: count_closed_def acc_consistent_def)
qed

lemma consistent_count_pr:
  assumes "\<not> inherited r" and "acc_consistent acc"
  shows "acc_consistent (count_pr b1 b2 r acc)"
proof -
  let ?acc0 = "pr_entry r acc"
  let ?acc1 = "if b1 then count_opened r ?acc0 else ?acc0"
  from consistent_pr_entry[OF assms]
  have e: "acc_consistent ?acc0" "map_of (pull_requests_by_repo ?acc0) r \<noteq> None" by simp_all
  have o: "acc_consistent ?acc1 \<and> map_of (pull_requests_by_repo ?acc1) r \<noteq> None"
    using e consistent_count_opened[OF e(2,1)] by simp
  then have "acc_consistent (if b2 then count_closed r ?acc1 else ?acc1)"
    using consistent_count_closed[of ?acc1 r] by simp
  then show ?thesis by (simp add: count_pr_def Let_def)
qed

lemma steps_keep_acc_consistent:
  assumes "\<not> inherited r"
  shows "steps_keep acc_consistent r"
proof -
  have "acc_consistent (new_author i)" for i
    by (simp add: acc_consistent_def new_author_def)
  moreover have "acc_consistent (acc\<lparr>acc_user_id := i\<rparr>)" if "acc_consistent acc" for acc i
    using that by (simp add: acc_consistent_def)
  ultimately show ?thesis
    unfolding steps_keep_def
    using consistent_count_commit[OF assms] consistent_count_pr[OF assms] by blast
qed

lemma sum_invariant_ordinary_names:
  assumes "\<forall>repo \<in> set repos. \<not> inherited (repository_name repo)"
    and "collectUserStats api repos cutoff = Some us"
  shows "all_accumulators acc_consistent us"
proof -
  have "\<forall>repo \<in> set repos. steps_keep acc_consistent (repository_name repo)"
    using assms(1) by (simp add: steps_keep_acc_consistent)
  moreover have "all_accumulators acc_consistent []" by (simp add: all_accumulators_def)
  ultimately show ?thesis
    using assms(2) unfolding collectUserStats_def by (rule keep_collect_loop)
qed

text \<open>
  On repositories with ordinary names the pass gives the accumulators of the example,
  which have the sum property.
\<close>

lemma ordinary_pass_example:
  "collectUserStats (\<lambda>_. ex_feed) [ex_repo] ex_cutoff = Some ex_stats
   \<and> all_accumulators acc_consistent ex_stats"
  by code_simp

text \<open>
  C4. The claim is that a commit reachable from two branches adds exactly 1 to the commit
  counter of its repository and to the total of its author. In a repository named
  \<^verbatim>\<open>constructor\<close> the code does not: the commit \<^verbatim>\<open>c1\<close> of
  \<^verbatim>\<open>alice\<close>, on the branches \<^verbatim>\<open>main\<close> and \<^verbatim>\<open>dev\<close>, adds 1 to
  her total, but the counter of the repository is not initialised and its increment
  stores \<^verbatim>\<open>NaN\<close>; the summary shows 0 commits in that repository. When the
  author identity is \<^verbatim>\<open>constructor\<close> the commit is counted nowhere: reading the
  accumulator throws, the rest of the repository is not read, and the commit
  \<^verbatim>\<open>c2\<close> of \<^verbatim>\<open>alice\<close> that follows is lost with it. The same commits in a
  repository named \<^verbatim>\<open>widgets\<close> are counted as the claim says.
\<close>

theorem shared_commit_inherited_name:
  "collectUserStats (\<lambda>_. ex_shared_commit_feed) [ex_constructor_repo] ex_cutoff
     = Some [(''alice'',
              \<lparr>acc_user_id = None, commits_by_repo = [(''constructor'', NaN)],
               pull_requests_by_repo = [], acc_total_commits = 1,
               acc_total_prs_opened = 0, acc_total_prs_closed = 0\<rparr>)]
   \<and> process_installation ex_installation (Inr [ex_constructor_repo])
         (\<lambda>_. ex_shared_commit_feed) 7 ex_cutoff
     = Some (Stats
         \<lparr>inst_id = 1, account = ''acme'', account_type = ''Organization'', period_days = 7,
          user_stats =
            [\<lparr>name = ''alice'', user_id = None, total_commits = 1, total_prs_opened = 0,
              total_prs_closed = 0,
              repo_contributions =
                [\<lparr>repo_name = ''constructor'', commits = 0, prs_opened = 0,
                  prs_closed = 0\<rparr>]\<rparr>]\<rparr>)
   \<and> collectUserStats (\<lambda>_. ex_shared_commit_feed) [ex_repo] ex_cutoff
     = Some [(''alice'',
              \<lparr>acc_user_id = None, commits_by_repo = [(''widgets'', Num 1)],
               pull_requests_by_repo = [], acc_total_commits = 1,
               acc_total_prs_opened = 0, acc_total_prs_closed = 0\<rparr>)]
   \<and> processRepositoryBranches ''widgets'' (branches_response ex_named_constructor_feed) ({}, [])
     = (Some TypeError, {''c1''}, [])
   \<and> collectUserStats (\<lambda>_. ex_named_constructor_feed) [ex_repo] ex_cutoff = Some []"
  by code_simp

text \<open>
  C5. The claim is that the totals of every accumulator equal the sums of its
  per-repository counts at all times. In a repository named \<^verbatim>\<open>constructor\<close> the
  code breaks this: after the first commit of \<^verbatim>\<open>bob\<close> his total is 1 and the
  only count is \<^verbatim>\<open>NaN\<close>; after the second commit the total is 2 and the count is
  1; his pull request, opened in the period, raises the opened total to 1 and creates no
  per-repository entry. The accumulators at the end of the pass have totals 2 and 1 where
  the counts sum to 1 and 0.
\<close>

theorem totals_exceed_sums:
  "process_commit ''constructor'' (ex_commit ''c1'' ''bob'') ({}, [])
     = (None, {''c1''},
        [(''bob'',
          \<lparr>acc_user_id = None, commits_by_repo = [(''constructor'', NaN)],
           pull_requests_by_repo = [], acc_total_commits = 1,
           acc_total_prs_opened = 0, acc_total_prs_closed = 0\<rparr>)])
   \<and> collectUserStats (\<lambda>_. ex_two_commits_feed) [ex_constructor_repo] ex_cutoff
     = Some [(''bob'',
              \<lparr>acc_user_id = None, commits_by_repo = [(''constructor'', Num 1)],
               pull_requests_by_repo = [], acc_total_commits = 2,
               acc_total_prs_opened = 1, acc_total_prs_closed = 0\<rparr>)]
   \<and> \<not> acc_consistent
         \<lparr>acc_user_id = None, commits_by_repo = [(''constructor'', Num 1)],
          pull_requests_by_repo = [], acc_total_commits = 2,
          acc_total_prs_opened = 1, acc_total_prs_closed = 0\<rparr>"
  by code_simp

text \<open>
  C6. The claim is that a pull request created at or after the cutoff adds 1 to the
  opened counter of its repository and to the opened total of its author, and likewise
  for closed. In a repository named \<^verbatim>\<open>constructor\<close> both paths add to the totals
  only: no per-repository entry is created, and the increment of the counter is lost. For
  an author identity \<^verbatim>\<open>constructor\<close> reading the accumulator throws: the search
  path and the fallback both skip the pull request, and nothing is counted. The same pull
  request of \<^verbatim>\<open>bob\<close> in a repository named \<^verbatim>\<open>widgets\<close> is counted as
  the claim says.
\<close>

theorem pull_request_inherited_name:
  "processPullRequestsFromSearch [ex_constructor_pr] ex_constructor_repo ex_cutoff []
     = [(''bob'',
         \<lparr>acc_user_id = None, commits_by_repo = [], pull_requests_by_repo = [],
          acc_total_commits = 0, acc_total_prs_opened = 1, acc_total_prs_closed = 0\<rparr>)]
   \<and> process_page_item (ex_pr 6 ''carol'' 1200 (Some 1300) 1300) ''constructor'' ex_cutoff []
     = [(''carol'',
         \<lparr>acc_user_id = None, commits_by_repo = [], pull_requests_by_repo = [],
          acc_total_commits = 0, acc_total_prs_opened = 1, acc_total_prs_closed = 1\<rparr>)]
   \<and> processPullRequest (ex_pr 6 ''constructor'' 1200 (Some 1300) 1300) ''widgets'' ex_cutoff []
     = Inl TypeError
   \<and> process_page_item (ex_pr 6 ''constructor'' 1200 (Some 1300) 1300) ''widgets'' ex_cutoff []
     = []
   \<and> processPullRequest ex_constructor_pr ''widgets'' ex_cutoff []
     = Inr [(''bob'',
             \<lparr>acc_user_id = None, commits_by_repo = [],
              pull_requests_by_repo = [(''widgets'', \<lparr>opened = 1, closed = 0\<rparr>)],
              acc_total_commits = 0, acc_total_prs_opened = 1, acc_total_prs_closed = 0\<rparr>)]"
  by code_simp

subsection \<open>An author with nothing counted\<close>

text \<open>
  C10. There is an input whose result holds an author, and a contribution row of that
  author, with commits, opened and closed all zero: a pull request updated inside the
  window, created before the cutoff and not closed creates the accumulator of its author
  and the entry of its repository on either path, and both reach the summary of the
  installation and the text of the report.
\<close>

theorem zero_count_author_survives:
  "created_at ex_stale_item < ex_cutoff
   \<and> closed_at ex_stale_item = None
   \<and> ex_cutoff \<le> pr_updated_at ex_stale_item
   \<and> process_installation ex_installation (Inr [ex_repo]) (\<lambda>_. ex_stale_feed) 7 ex_cutoff
       = Some (Stats ex_zero_stats)
   \<and> process_installation ex_installation (Inr [ex_repo]) (\<lambda>_. ex_stale_fallback_feed) 7 ex_cutoff
       = Some (Stats ex_zero_stats)
   \<and> collectUserStats (\<lambda>_. ex_stale_feed) [ex_repo] ex_cutoff
       = Some [(''carol'',
                \<lparr>acc_user_id = None, commits_by_repo = [],
                 pull_requests_by_repo = [(''widgets'', \<lparr>opened = 0, closed = 0\<rparr>)],
                 acc_total_commits = 0, acc_total_prs_opened = 0, acc_total_prs_closed = 0\<rparr>)]
   \<and> user_stats ex_zero_stats = [ex_zero_user]
   \<and> user_total ex_zero_user = 0
   \<and> repo_contributions ex_zero_user = [ex_zero_row]
   \<and> repo_total ex_zero_row = 0
   \<and> fst (generateReport [Stats ex_zero_stats])
       = [CHR 0xC3, CHR 0xB0, CHR 0xC5, CHR 0xB8, CHR 0xE2, CHR 0x80, CHR 0x9C, CHR 0xC5, CHR 0xA0] @ '' Statistics for acme (Organization) - Last week:'' @ [CHR 0x0A]
           @ [CHR 0x0A] @ [CHR 0xC3, CHR 0xB0, CHR 0xC5, CHR 0xB8, CHR 0xE2, CHR 0x80, CHR 0x98, CHR 0xC2, CHR 0xA4] @ '' carol:'' @ [CHR 0x0A]
           @ ''  Total: 0 commits, 0 PRs opened, 0 PRs closed'' @ [CHR 0x0A]
           @ ''  Contributions by repository:'' @ [CHR 0x0A]
           @ ''    - widgets: 0 commits, 0 PRs opened, 0 PRs closed'' @ [CHR 0x0A]
           @ ''''"
  by code_simp

end
